theory Spec2Isabelle
  imports Main
begin

section \<open>The editor bridge of the mobile client (use-editor.ts)\<close>

text \<open>
  A shallow embedding of the hook \<^verbatim>\<open>useEditor\<close> of
  \<^verbatim>\<open>apps/mobile/app/screens/editor/tiptap/use-editor.ts\<close>. The mutable cells of the
  hook (\<^verbatim>\<open>useRef\<close> values, the React state \<^verbatim>\<open>sessionId\<close>), the parts of the
  stores it reads and writes, the notes collection of the database, the clock and the
  pending timers of the JavaScript runtime are the fields of one record; every function
  of the hook takes that record and returns the updated one. What a function sends to
  the embedded view, to the database, to the event bus or to the navigation service is
  appended to the field \<open>trace\<close>.

  Times are milliseconds as \<open>int\<close> (\<^verbatim>\<open>Date.now()\<close> is the field \<open>clock\<close>). An optional
  JavaScript string is a \<open>string option\<close>, \<open>None\<close> standing for \<^verbatim>\<open>undefined\<close> and
  \<^verbatim>\<open>null\<close>; the elements of a string stand for its UTF-16 code units.

  Modelled are \<^verbatim>\<open>withTimer\<close>, \<^verbatim>\<open>reset\<close>, \<^verbatim>\<open>saveNote\<close>, \<^verbatim>\<open>loadContent\<close>, \<^verbatim>\<open>loadNote\<close>,
  \<^verbatim>\<open>loadImages\<close>, \<^verbatim>\<open>saveContent\<close> and \<^verbatim>\<open>restoreEditorState\<close>. The effects that only pass
  the theme, the insets and the tags on, \<^verbatim>\<open>onReady\<close> and \<^verbatim>\<open>onLoad\<close> are left out. The database
  and the key-value store are taken to be there (\<^verbatim>\<open>db.notes\<close>, \<^verbatim>\<open>db.vault\<close> are defined), and
  of the calls the hook awaits only the two writes of \<^verbatim>\<open>saveNote\<close> may be rejected.
\<close>

subsection \<open>Data\<close>

record content =
  data :: "string option"
  ctype :: string
  isPreview :: bool

text \<open>
  The fields of a note that the hook reads (\<^verbatim>\<open>NoteType\<close>, \<^verbatim>\<open>Note\<close>), together with the
  two fields \<^verbatim>\<open>type\<close> and \<^verbatim>\<open>forced\<close> that a load request adds to it.
\<close>

record noteType =
  note_id :: string
  note_type :: string
  forced :: bool
  title :: string
  headline :: "string option"
  locked :: bool
  conflicted :: bool
  note_readonly :: bool
  contentId :: "string option"
  dateEdited :: int
  note_content :: "content option"

text \<open>\<^verbatim>\<open>SavePayload\<close>, the argument of \<^verbatim>\<open>saveNote\<close>.\<close>

record savePayload =
  p_title :: "string option"
  p_id :: "string option"
  p_data :: "string option"
  p_type :: string
  p_sessionId :: string
  p_sessionHistoryId :: "int option"

text \<open>
  The history-session field of a partial update is \<^verbatim>\<open>null\<close>, \<^verbatim>\<open>undefined\<close> (the
  payload carried no token) or a number.
\<close>

datatype hist_token = HNull | HUndefined | HNum int

text \<open>
  \<^verbatim>\<open>noteData: Partial<Note>\<close> as \<^verbatim>\<open>saveNote\<close> builds it. A field that is \<open>None\<close> is absent
  from the object (or, for \<open>nd_contentId\<close> and \<open>nd_id\<close>, present with the value
  \<^verbatim>\<open>undefined\<close>).
\<close>

record noteData =
  nd_id :: "string option"
  nd_sessionId :: hist_token
  nd_title :: "string option"
  nd_content :: "content option"
  nd_contentId :: "string option"

text \<open>The persisted blob under the key \<^verbatim>\<open>appState\<close> (\<^verbatim>\<open>AppState\<close>), already parsed.\<close>

record appState =
  editing :: bool
  as_note :: "noteType option"
  timestamp :: int

text \<open>The message types of \<^verbatim>\<open>EditorEvents\<close> that the hook uses.\<close>

datatype editorEvents = EvTitle | EvTitlePlaceholder | EvHtml | EvTheme | EvContent

text \<open>What the hook does to its collaborators, in the order it does it.\<close>

datatype event =
    SetStatus string string
  | SetSessionId string
  | Focus
  | ClearContent
  | ClearTags
  | SetPlaceholder
  | SetTags "noteType option"
  | SetSettings
  | PostMessage string editorEvents "string option"
  | Overlay bool
  | FsCancel string
  | NotesAdd noteData
  | VaultSave noteData
  | ContentRaw "string option"
  | NoteCreated string
  | QueueRoutesForUpdate
  | OnChange string
  | ConsoleLog
  | GoToPage nat
  | LoadOverlay string
  | DownloadMedia string
  | DownloadImages string

text \<open>The callbacks the hook hands to \<^verbatim>\<open>setTimeout\<close>.\<close>

datatype callback =
    SaveCb savePayload string
  | SetEditingCb "string option"
  | LoadNoteCb "noteType option"
  | LoadImagesCb

record timer =
  handle :: nat
  due :: int
  cb :: callback

record editor =
  sessionId :: string
  sessionIdRef :: string
  currentNote :: "noteType option"
  currentContent :: "content option"
  sessionHistoryId :: "int option"
  saveCount :: nat
  timers :: "string \<rightharpoonup> nat"
  currentlyEditing :: bool
  isRestoringState :: bool
  movedAway :: bool
  store_readonly :: bool
  currentEditingNote :: "string option"
  db_notes :: "string \<rightharpoonup> noteType"
  mmkv_appState :: "appState option"
  clock :: int
  pending :: "timer list"
  next_handle :: nat
  trace :: "event list"

text \<open>
  The arguments of the hook and the collaborators whose code is in other modules
  (\<^verbatim>\<open>./utils\<close>, \<^verbatim>\<open>utils/time\<close>, the database): they are parameters of the model.
  \<open>notes_add\<close> is \<^verbatim>\<open>db.notes.add\<close>, from the partial update, the time and the notes
  collection to the id it resolves to and the new collection; \<open>vault_save\<close> is
  \<^verbatim>\<open>db.vault.save\<close>. Both give \<open>None\<close> when the promise is rejected. \<open>hasOnChange\<close>
  says whether the hook was given an \<^verbatim>\<open>onChange\<close> observer, \<open>hasOnNoteCreated\<close> whether
  \<^verbatim>\<open>state.current.onNoteCreated\<close> is set, \<open>hasImages\<close> whether the note has image
  attachments, \<open>isTab\<close> is \<^verbatim>\<open>DDS.isTab\<close>.
\<close>

record env =
  readonly :: bool
  isDefaultEditor :: bool
  hasOnChange :: bool
  hasOnNoteCreated :: bool
  isTab :: bool
  isContentInvalid :: "string option \<Rightarrow> bool"
  makeSessionId :: "noteType option \<Rightarrow> int \<Rightarrow> string"
  timeConverter :: "int \<Rightarrow> string"
  notes_add :: "noteData \<Rightarrow> int \<Rightarrow> (string \<rightharpoonup> noteType) \<Rightarrow> (string option \<times> (string \<rightharpoonup> noteType)) option"
  vault_save :: "noteData \<Rightarrow> int \<Rightarrow> (string \<rightharpoonup> noteType) \<Rightarrow> (string \<rightharpoonup> noteType) option"
  content_raw :: "string option \<Rightarrow> content option"
  hasImages :: "string \<Rightarrow> bool"

subsection \<open>JavaScript values\<close>

text \<open>A string is truthy when it is defined and not empty.\<close>

definition truthy :: "string option \<Rightarrow> bool" where
  "truthy x = (case x of None \<Rightarrow> False | Some v \<Rightarrow> v \<noteq> [])"

definition hist_of :: "int option \<Rightarrow> hist_token" where
  "hist_of x = (case x of None \<Rightarrow> HUndefined | Some t \<Rightarrow> HNum t)"

definition emit :: "event \<Rightarrow> editor \<Rightarrow> editor" where
  "emit e s = s\<lparr>trace := trace s @ [e]\<rparr>"

text \<open>\<^verbatim>\<open>postMessage\<close> tags the message with the session token of the moment it is sent.\<close>

definition postMessage :: "editorEvents \<Rightarrow> string option \<Rightarrow> editor \<Rightarrow> editor" where
  "postMessage ty d s = emit (PostMessage (sessionIdRef s) ty d) s"

subsection \<open>Timers\<close>

text \<open>
  \<^verbatim>\<open>setTimeout\<close> gives a fresh handle and queues the callback; \<^verbatim>\<open>clearTimeout\<close> drops the
  timer with that handle if it is still pending and does nothing for \<^verbatim>\<open>undefined\<close> or
  for a timer that has fired.
\<close>

definition setTimeout :: "callback \<Rightarrow> int \<Rightarrow> editor \<Rightarrow> nat \<times> editor" where
  "setTimeout fn duration s =
     (next_handle s,
      s\<lparr>pending := pending s @ [\<lparr>handle = next_handle s, due = clock s + duration, cb = fn\<rparr>],
        next_handle := Suc (next_handle s)\<rparr>)"

definition clearTimeout :: "nat option \<Rightarrow> editor \<Rightarrow> editor" where
  "clearTimeout h s =
     (case h of None \<Rightarrow> s
      | Some k \<Rightarrow> s\<lparr>pending := filter (\<lambda>t. handle t \<noteq> k) (pending s)\<rparr>)"

definition withTimer :: "string \<Rightarrow> callback \<Rightarrow> int \<Rightarrow> editor \<Rightarrow> editor" where
  "withTimer k fn duration s =
     (let s1 = clearTimeout (timers s k) s;
          (h, s2) = setTimeout fn duration s1
      in s2\<lparr>timers := (timers s2)(k \<mapsto> h)\<rparr>)"

subsection \<open>reset\<close>

text \<open>
  The awaited commands of \<^verbatim>\<open>reset\<close> are taken in one step. The tip shown as placeholder
  is not modelled, only that the command is sent.
\<close>

definition reset :: "env \<Rightarrow> bool \<Rightarrow> editor \<Rightarrow> editor" where
  "reset env resetState s =
     (let s1 = (case currentNote s of None \<Rightarrow> s
                | Some n \<Rightarrow> if note_id n \<noteq> [] then emit (FsCancel (note_id n)) s else s);
          s2 = s1\<lparr>currentNote := None, currentContent := None, sessionHistoryId := None,
                 saveCount := 0, store_readonly := False\<rparr>;
          s3 = postMessage EvTitle (Some []) s2;
          s4 = emit ClearTags (emit ClearContent s3)
      in if resetState
         then emit SetPlaceholder
                (if isDefaultEditor env then s4\<lparr>currentEditingNote := None\<rparr> else s4)
         else s4)"

subsection \<open>saveNote\<close>

text \<open>
  \<^verbatim>\<open>saveNote\<close> is an \<^verbatim>\<open>async\<close> function: at each \<^verbatim>\<open>await\<close> other code of the hook may run
  before it goes on. It is modelled as its three pieces between the awaits, each a
  function of the state it finds when it runs, and the local variables that live
  across an await are handed from one piece to the next in a frame:
  \<^item> \<open>saveNote_begin\<close>, lines 176 to 217 (or 240): the early exits, the new history
    token for invalid content (the payload's token \<^verbatim>\<open>currentSessionHistoryId\<close> is read
    again only under the same test, in \<open>noteData_of\<close>), the partial update, the call of \<^verbatim>\<open>db.notes.add\<close> or \<^verbatim>\<open>db.vault.save\<close>;
  \<^item> \<open>perform_write\<close>: the database carries out the write;
  \<^item> \<open>saveNote_written\<close>, lines 217 to 244: from the moment the write completes to the
    call of \<^verbatim>\<open>commands.setStatus\<close>;
  \<^item> \<open>saveNote_finish\<close>, lines 246 to 262.
  \<open>saveNote\<close> runs them one after the other with nothing in between.
\<close>

datatype 'k suspended = Done "string option" | Await 'k

record save_frame =
  f_id :: "string option"
  f_note :: "noteType option"
  f_noteData :: noteData
  f_locked :: bool
  f_sessionId :: string

record status_frame =
  g_id :: "string option"
  g_note :: noteType

datatype write_result = Rejected | Resolved "string option"

text \<open>\<^verbatim>\<open>id ? db.notes.note(id)?.data : null\<close>\<close>

definition note_of :: "editor \<Rightarrow> string option \<Rightarrow> noteType option" where
  "note_of s i = (case i of None \<Rightarrow> None | Some k \<Rightarrow> if k = [] then None else db_notes s k)"

text \<open>Lines 200 to 214: the partial update, before the branch on \<^verbatim>\<open>locked\<close>.\<close>

definition noteData_of :: "env \<Rightarrow> savePayload \<Rightarrow> noteData" where
  "noteData_of env p =
     \<lparr>nd_id = p_id p,
      nd_sessionId =
        (if isContentInvalid env (p_data p) then HNull else hist_of (p_sessionHistoryId p)),
      nd_title = (if truthy (p_title p) then p_title p else None),
      nd_content =
        (if truthy (p_data p)
         then Some \<lparr>data = p_data p, ctype = p_type p, isPreview = False\<rparr>
         else None),
      nd_contentId = None\<rparr>"

definition saveNote_begin :: "env \<Rightarrow> savePayload \<Rightarrow> editor \<Rightarrow> save_frame suspended \<times> editor" where
  "saveNote_begin env p s =
     (if readonly env \<or> store_readonly s \<or>
         (case currentNote s of None \<Rightarrow> False | Some n \<Rightarrow> note_readonly n)
      then (Done None, s)
      else if truthy (p_id p) \<and> note_of s (p_id p) = None
      then (Done None,
            reset env True (if isDefaultEditor env then s\<lparr>currentEditingNote := None\<rparr> else s))
      else
        let note = note_of s (p_id p);
            locked = (case note of None \<Rightarrow> False | Some n \<Rightarrow> locked n)
        in if (case note of None \<Rightarrow> False | Some n \<Rightarrow> conflicted n) then (Done None, s)
           else
             let s1 = (if isContentInvalid env (p_data p)
                       then s\<lparr>sessionHistoryId := Some (clock s)\<rparr> else s);
                 noteData = noteData_of env p
             in if \<not> locked
                then (Await \<lparr>f_id = p_id p, f_note = note, f_noteData = noteData,
                              f_locked = False, f_sessionId = p_sessionId p\<rparr>,
                      emit (NotesAdd noteData) s1)
                else
                  let vaultData =
                        noteData\<lparr>nd_contentId :=
                                   (case note of None \<Rightarrow> None | Some n \<Rightarrow> contentId n)\<rparr>
                  in (Await \<lparr>f_id = p_id p, f_note = note, f_noteData = vaultData,
                              f_locked = True, f_sessionId = p_sessionId p\<rparr>,
                      emit (VaultSave vaultData) s1))"

definition perform_write :: "env \<Rightarrow> save_frame \<Rightarrow> editor \<Rightarrow> write_result \<times> editor" where
  "perform_write env fr s =
     (if f_locked fr
      then (case vault_save env (f_noteData fr) (clock s) (db_notes s) of
              None \<Rightarrow> (Rejected, s)
            | Some db' \<Rightarrow> (Resolved (f_id fr), s\<lparr>db_notes := db'\<rparr>))
      else (case notes_add env (f_noteData fr) (clock s) (db_notes s) of
              None \<Rightarrow> (Rejected, s)
            | Some (r, db') \<Rightarrow> (Resolved r, s\<lparr>db_notes := db'\<rparr>)))"

text \<open>
  Lines 218 to 227, after \<^verbatim>\<open>db.notes.add\<close> resolved to \<open>i\<close>: a note that did not exist
  before is now the current note. \<open>None\<close> is the TypeError of line 219 when the
  collection has no note under the id that was returned.
\<close>

definition note_created :: "env \<Rightarrow> save_frame \<Rightarrow> string option \<Rightarrow> editor \<Rightarrow> editor option" where
  "note_created env fr i s =
     (if f_note fr = None \<and> truthy i
      then (case note_of s i of
              None \<Rightarrow> None
            | Some n \<Rightarrow>
                let s1 = s\<lparr>currentNote := Some n\<rparr>;
                    s2 = (if hasOnNoteCreated env
                          then emit (NoteCreated (case i of None \<Rightarrow> [] | Some k \<Rightarrow> k)) s1
                          else s1)
                in Some (if \<not> truthy (nd_title (f_noteData fr))
                         then postMessage EvTitlePlaceholder (Some (title n)) s2
                         else s2))
      else Some s)"

text \<open>
  Lines 229 to 236. \<^verbatim>\<open>currentEditingNote\<close> is a string or \<^verbatim>\<open>null\<close> and \<open>i\<close> a string or
  \<^verbatim>\<open>undefined\<close>, so the two differ whenever \<open>i\<close> is undefined.
\<close>

definition mark_editing :: "env \<Rightarrow> string option \<Rightarrow> editor \<Rightarrow> editor" where
  "mark_editing env i s =
     (if (i = None \<or> currentEditingNote s \<noteq> i) \<and> isDefaultEditor env
      then snd (setTimeout (SetEditingCb i) 0 s)
      else s)"

definition after_add :: "env \<Rightarrow> save_frame \<Rightarrow> string option \<Rightarrow> editor \<Rightarrow> editor option" where
  "after_add env fr i s = map_option (mark_editing env i) (note_created env fr i s)"

definition saveNote_written ::
  "env \<Rightarrow> save_frame \<Rightarrow> write_result \<Rightarrow> editor \<Rightarrow> status_frame suspended \<times> editor" where
  "saveNote_written env fr w s =
     (case w of
        Rejected \<Rightarrow> (Done None, emit ConsoleLog s)
      | Resolved r \<Rightarrow>
          let i = (if f_locked fr then f_id fr else r)
          in case (if f_locked fr then Some s else after_add env fr i s) of
               None \<Rightarrow> (Done None, emit ConsoleLog s)
             | Some s1 \<Rightarrow>
                 if truthy i \<and> sessionIdRef s1 = f_sessionId fr
                 then (case note_of s1 i of
                         None \<Rightarrow> (Done None, emit ConsoleLog s1)
                       | Some n \<Rightarrow>
                           (Await \<lparr>g_id = i, g_note = n\<rparr>,
                            emit (SetStatus (timeConverter env (dateEdited n)) ''Saved'') s1))
                 else (Done i, s1\<lparr>saveCount := Suc (saveCount s1)\<rparr>))"

definition needs_refresh :: "noteType \<Rightarrow> editor \<Rightarrow> bool" where
  "needs_refresh n s =
     (saveCount s < 2 \<or>
      map_option title (currentNote s) \<noteq> Some (title n) \<or>
      map_option (take 200) (Option.bind (currentNote s) headline)
        \<noteq> map_option (take 200) (headline n))"

definition saveNote_finish :: "status_frame \<Rightarrow> editor \<Rightarrow> string option \<times> editor" where
  "saveNote_finish g s =
     (let s1 = (if needs_refresh (g_note g) s then emit QueueRoutesForUpdate s else s)
      in (g_id g, s1\<lparr>saveCount := Suc (saveCount s1)\<rparr>))"

definition saveNote :: "env \<Rightarrow> savePayload \<Rightarrow> editor \<Rightarrow> string option \<times> editor" where
  "saveNote env p s =
     (case saveNote_begin env p s of
        (Done r, s1) \<Rightarrow> (r, s1)
      | (Await fr, s1) \<Rightarrow>
          (case perform_write env fr s1 of
             (w, s2) \<Rightarrow>
               (case saveNote_written env fr w s2 of
                  (Done r, s3) \<Rightarrow> (r, s3)
                | (Await g, s3) \<Rightarrow> saveNote_finish g s3)))"

subsection \<open>loadContent, loadNote, loadImages\<close>

text \<open>
  The awaited calls of \<^verbatim>\<open>loadNote\<close> are taken in one step. \<^verbatim>\<open>note.content?.type || "tiny"\<close>
  falls back for an absent and for an empty type.
\<close>

definition loadContent :: "env \<Rightarrow> noteType \<Rightarrow> editor \<Rightarrow> editor" where
  "loadContent env n s =
     (let s1 = s\<lparr>currentNote := Some n\<rparr>
      in if locked n \<or> note_content n \<noteq> None
         then s1\<lparr>currentContent :=
                   Some \<lparr>data = (case note_content n of None \<Rightarrow> None | Some c \<Rightarrow> data c),
                         ctype = (case note_content n of
                                    None \<Rightarrow> ''tiny''
                                  | Some c \<Rightarrow> if ctype c = [] then ''tiny'' else ctype c),
                         isPreview = False\<rparr>\<rparr>
         else (emit (ContentRaw (contentId n)) s1)
                \<lparr>currentContent := content_raw env (contentId n)\<rparr>)"

definition loadImages :: "editor \<Rightarrow> editor" where
  "loadImages s =
     (case currentNote s of
        None \<Rightarrow> s
      | Some n \<Rightarrow> if note_id n = [] then s else snd (setTimeout LoadImagesCb 300 s))"

definition loadImages_callback :: "env \<Rightarrow> editor \<Rightarrow> editor" where
  "loadImages_callback env s =
     (case currentNote s of
        None \<Rightarrow> s
      | Some n \<Rightarrow>
          if note_id n = [] then s
          else if (case note_content n of None \<Rightarrow> False | Some c \<Rightarrow> isPreview c)
          then emit (DownloadMedia (note_id n)) s
          else if hasImages env (note_id n) then emit (DownloadImages (note_id n)) s
          else s)"

definition loadNote :: "env \<Rightarrow> noteType \<Rightarrow> editor \<Rightarrow> editor" where
  "loadNote env item s =
     (let s0 = s\<lparr>currentlyEditing := True\<rparr>
      in if note_type item = ''new''
         then
           let s1 = (if currentNote s0 \<noteq> None then reset env True s0 else s0);
               nextSessionId = makeSessionId env (Some item) (clock s1);
               s2 = s1\<lparr>sessionId := nextSessionId, sessionIdRef := nextSessionId,
                      sessionHistoryId := Some (clock s1)\<rparr>;
               s3 = emit Focus (emit (SetSessionId nextSessionId) s2)
           in s3\<lparr>store_readonly := False\<rparr>
         else if \<not> forced item \<and>
                 (case currentNote s0 of None \<Rightarrow> False | Some c \<Rightarrow> note_id c = note_id item)
         then s0
         else
           let s1 = (if isDefaultEditor env
                     then s0\<lparr>currentEditingNote := Some (note_id item)\<rparr> else s0);
               s2 = emit (Overlay True) s1;
               s3 = (if currentNote s2 \<noteq> None then reset env False s2 else s2);
               s4 = loadContent env item s3;
               nextSessionId = makeSessionId env (Some item) (clock s4);
               s5 = s4\<lparr>sessionHistoryId := Some (clock s4), sessionId := nextSessionId,
                      sessionIdRef := nextSessionId\<rparr>;
               s6 = (emit (SetSessionId nextSessionId) s5)\<lparr>currentNote := Some item\<rparr>;
               s7 = emit (SetStatus (timeConverter env (dateEdited item)) ''Saved'') s6;
               s8 = postMessage EvTitle (Some (title item)) s7;
               s9 = postMessage EvHtml
                      (case currentContent s8 of None \<Rightarrow> None | Some c \<Rightarrow> data c) s8;
               s10 = s9\<lparr>store_readonly := note_readonly item\<rparr>;
               s11 = emit (SetTags (currentNote s10)) s10;
               s12 = emit (Overlay False) (emit SetSettings s11)
           in loadImages s12)"

subsection \<open>saveContent and its timer\<close>

text \<open>\<^verbatim>\<open>currentNote.current?.id || "newnote"\<close>\<close>

definition timer_key :: "editor \<Rightarrow> string" where
  "timer_key s =
     (case currentNote s of
        None \<Rightarrow> ''newnote''
      | Some n \<Rightarrow> if note_id n = [] then ''newnote'' else note_id n)"

text \<open>
  The object \<^verbatim>\<open>params\<close> of \<^verbatim>\<open>saveContent\<close>. Its \<^verbatim>\<open>sessionId\<close> is the React state
  \<^verbatim>\<open>sessionId\<close> of the render the callback \<^verbatim>\<open>saveContent\<close> belongs to. The field
  \<open>sessionId\<close> of the state is the value last given to \<^verbatim>\<open>setSessionId\<close>: the render that
  follows it is taken to have happened when \<^verbatim>\<open>saveContent\<close> is called next.
\<close>

definition save_params :: "string option \<Rightarrow> string option \<Rightarrow> editor \<Rightarrow> savePayload" where
  "save_params ttl cnt s =
     \<lparr>p_title = ttl, p_id = map_option note_id (currentNote s), p_data = cnt,
      p_type = ''tiptap'', p_sessionId = sessionId s,
      p_sessionHistoryId = sessionHistoryId s\<rparr>"

text \<open>
  The timer's closure of lines 382 to 395 holds \<^verbatim>\<open>params\<close> and the variable \<^verbatim>\<open>sessionId\<close>
  of the enclosing render: \<open>SaveCb params sid\<close>.
\<close>

definition saveContent ::
  "string option \<Rightarrow> string option \<Rightarrow> editorEvents \<Rightarrow> editor \<Rightarrow> editor" where
  "saveContent ttl cnt ty s =
     (let s1 = (if ty = EvContent
                then s\<lparr>currentContent := Some \<lparr>data = cnt, ctype = ''tiptap'', isPreview = False\<rparr>\<rparr>
                else s)
      in withTimer (timer_key s1) (SaveCb (save_params ttl cnt s1) (sessionId s1)) 500 s1)"

text \<open>Lines 383 to 389: the id the closure gives to the payload before it saves.\<close>

definition timer_params :: "savePayload \<Rightarrow> string \<Rightarrow> editor \<Rightarrow> savePayload" where
  "timer_params params sid s =
     (if currentNote s \<noteq> None \<and> \<not> truthy (p_id params) \<and> p_sessionId params = sid
      then params\<lparr>p_id := map_option note_id (currentNote s)\<rparr>
      else params)"

definition save_callback :: "env \<Rightarrow> savePayload \<Rightarrow> string \<Rightarrow> editor \<Rightarrow> editor" where
  "save_callback env params sid s =
     (let params' = timer_params params sid s
      in if hasOnChange env \<and> truthy (p_data params')
         then emit (OnChange (case p_data params' of None \<Rightarrow> [] | Some d \<Rightarrow> d)) s
         else snd (saveNote env params' s))"

subsection \<open>The timers of the runtime\<close>

definition run_callback :: "env \<Rightarrow> callback \<Rightarrow> editor \<Rightarrow> editor" where
  "run_callback env c s =
     (case c of
        SaveCb params sid \<Rightarrow> save_callback env params sid s
      | SetEditingCb i \<Rightarrow> if truthy i then s\<lparr>currentEditingNote := i\<rparr> else s
      | LoadNoteCb n \<Rightarrow> (case n of None \<Rightarrow> s | Some item \<Rightarrow> loadNote env item s)
      | LoadImagesCb \<Rightarrow> loadImages_callback env s)"

text \<open>The pending timer that fires first: the least due time, the oldest among equals.\<close>

fun earliest :: "timer list \<Rightarrow> timer option" where
  "earliest [] = None"
| "earliest (t # ts) =
     (case earliest ts of
        None \<Rightarrow> Some t
      | Some u \<Rightarrow> if due u < due t then Some u else Some t)"

definition fire :: "env \<Rightarrow> timer \<Rightarrow> editor \<Rightarrow> editor" where
  "fire env t s =
     run_callback env (cb t)
       (s\<lparr>pending := filter (\<lambda>u. handle u \<noteq> handle t) (pending s),
          clock := max (clock s) (due t)\<rparr>)"

text \<open>
  Time passes until \<open>T\<close>: the runtime fires every timer that is due by then, one after
  the other, and gives the callbacks it ran. A callback may queue new timers, so the
  loop has fuel; \<open>None\<close> is running out of it.
\<close>

fun run_timers :: "env \<Rightarrow> nat \<Rightarrow> int \<Rightarrow> editor \<Rightarrow> (callback list \<times> editor) option" where
  "run_timers env 0 T s = None"
| "run_timers env (Suc k) T s =
     (case earliest (filter (\<lambda>t. due t \<le> T) (pending s)) of
        None \<Rightarrow> Some ([], s\<lparr>clock := max (clock s) T\<rparr>)
      | Some t \<Rightarrow>
          (case run_timers env k T (fire env t s) of
             None \<Rightarrow> None
           | Some (cs, s') \<Rightarrow> Some (cb t # cs, s')))"

subsection \<open>restoreEditorState\<close>

text \<open>
  The item \<^verbatim>\<open>appState\<close> of the key-value store is \<open>None\<close> when there is none or it is the
  empty string; parsing it is not modelled.
\<close>

definition restorable :: "appState \<Rightarrow> int \<Rightarrow> bool" where
  "restorable a now =
     (editing a \<and>
      \<not> (case as_note a of None \<Rightarrow> False | Some n \<Rightarrow> locked n) \<and>
      (case as_note a of None \<Rightarrow> False | Some n \<Rightarrow> note_id n \<noteq> []) \<and>
      now < timestamp a + 3600000)"

definition restoreEditorState :: "env \<Rightarrow> editor \<Rightarrow> editor" where
  "restoreEditorState env s =
     (case mmkv_appState s of
        None \<Rightarrow> s\<lparr>isRestoringState := False\<rparr>
      | Some a \<Rightarrow>
          if restorable a (clock s)
          then
            let s1 = emit (Overlay True) (s\<lparr>isRestoringState := True\<rparr>);
                s2 = s1\<lparr>currentlyEditing := True\<rparr>;
                s3 = (if \<not> isTab env then emit (GoToPage 1) s2 else s2);
                s4 = snd (setTimeout (LoadNoteCb (as_note a)) 1 s3);
                s5 = s4\<lparr>mmkv_appState := None, movedAway := False\<rparr>;
                s6 = emit (LoadOverlay ''hide_editor'') s5
            in s6\<lparr>isRestoringState := False\<rparr>
          else s\<lparr>isRestoringState := False\<rparr>)"

subsection \<open>The hook when it is mounted, and a sample environment\<close>

text \<open>
  Lines 57 to 71: the cells as \<^verbatim>\<open>useEditor\<close> creates them, over a given notes collection,
  app-state item and time. The flags of \<^verbatim>\<open>defaultState\<close> are taken as unset.
\<close>

definition initial :: "env \<Rightarrow> (string \<rightharpoonup> noteType) \<Rightarrow> appState option \<Rightarrow> int \<Rightarrow> editor" where
  "initial env db blob now =
     \<lparr>sessionId = makeSessionId env None now, sessionIdRef = makeSessionId env None now,
      currentNote = None, currentContent = None, sessionHistoryId = None, saveCount = 0,
      timers = Map.empty, currentlyEditing = False, isRestoringState = False,
      movedAway = False, store_readonly = False, currentEditingNote = None,
      db_notes = db, mmkv_appState = blob, clock = now, pending = [], next_handle = 0,
      trace = []\<rparr>"

text \<open>
  Modelled from the spec: \<^verbatim>\<open>db.notes.add\<close> and \<^verbatim>\<open>db.vault.save\<close>, whose code is in the
  database package. The spec has them as the upsert of a partial update, which writes
  the fields that are present and never the absent ones, and which assigns an id to a
  note that had none; the preview text is generated from the content. \<open>fresh\<close> is the
  id the database assigns. They are one instance of the parameters \<open>notes_add\<close> and
  \<open>vault_save\<close>, on which the model is run on concrete inputs. In the sample
  environment content is invalid when it is empty or the empty paragraph, and a session
  token is made from the id of the note.
\<close>

definition merge_note :: "noteData \<Rightarrow> int \<Rightarrow> noteType \<Rightarrow> noteType" where
  "merge_note nd now n =
     n\<lparr>title := (case nd_title nd of None \<Rightarrow> title n | Some t \<Rightarrow> t),
       headline := (case nd_content nd of None \<Rightarrow> headline n | Some c \<Rightarrow> data c),
       dateEdited := now\<rparr>"

definition blank_note :: "string \<Rightarrow> noteType" where
  "blank_note k =
     \<lparr>note_id = k, note_type = ''note'', forced = False, title = [], headline = None,
      locked = False, conflicted = False, note_readonly = False, contentId = None,
      dateEdited = 0, note_content = None\<rparr>"

definition spec_notes_add ::
  "string \<Rightarrow> noteData \<Rightarrow> int \<Rightarrow> (string \<rightharpoonup> noteType) \<Rightarrow> (string option \<times> (string \<rightharpoonup> noteType)) option" where
  "spec_notes_add fresh nd now db =
     (let k = (case nd_id nd of None \<Rightarrow> fresh | Some i \<Rightarrow> if i = [] then fresh else i);
          old = (case db k of None \<Rightarrow> blank_note k | Some n \<Rightarrow> n)
      in Some (Some k, db(k \<mapsto> merge_note nd now old)))"

definition spec_vault_save ::
  "noteData \<Rightarrow> int \<Rightarrow> (string \<rightharpoonup> noteType) \<Rightarrow> (string \<rightharpoonup> noteType) option" where
  "spec_vault_save nd now db =
     (case nd_id nd of
        None \<Rightarrow> None
      | Some k \<Rightarrow>
          (case db k of
             None \<Rightarrow> None
           | Some n \<Rightarrow> Some (db(k \<mapsto> (merge_note nd now n)\<lparr>contentId := nd_contentId nd\<rparr>))))"

definition sample_env :: env where
  "sample_env =
     \<lparr>readonly = False, isDefaultEditor = True, hasOnChange = False,
      hasOnNoteCreated = True, isTab = False,
      isContentInvalid = (\<lambda>d. \<not> truthy d \<or> d = Some ''<p></p>''),
      makeSessionId = (\<lambda>n t. (case n of None \<Rightarrow> [] | Some m \<Rightarrow> note_id m) @ ''_session''),
      timeConverter = (\<lambda>t. ''now''),
      notes_add = spec_notes_add ''n1'',
      vault_save = spec_vault_save,
      content_raw = (\<lambda>c. None),
      hasImages = (\<lambda>i. False)\<rparr>"

text \<open>Two stored notes, the second one locked in the vault.\<close>

definition note_a :: noteType where
  "note_a = (blank_note ''a'')\<lparr>title := ''Alpha'', headline := Some ''first'', contentId := Some ''ca''\<rparr>"

definition note_b :: noteType where
  "note_b = (blank_note ''b'')\<lparr>title := ''Beta'', locked := True, contentId := Some ''cb''\<rparr>"

definition sample_db :: "string \<rightharpoonup> noteType" where
  "sample_db = [''a'' \<mapsto> note_a, ''b'' \<mapsto> note_b]"

text \<open>The hook after it opened note \<open>a\<close> at time 1000, and after it opened \<open>b\<close>.\<close>

definition editing_a :: editor where
  "editing_a = loadNote sample_env note_a (initial sample_env sample_db None 1000)"

definition editing_b :: editor where
  "editing_b = loadNote sample_env note_b (initial sample_env sample_db None 1000)"

section \<open>Properties\<close>

text \<open>
  The predicates and the sample values in which the properties of the hook are stated
  and run.
\<close>

definition is_setStatus :: "event \<Rightarrow> bool" where
  "is_setStatus e = (case e of SetStatus a b \<Rightarrow> True | _ \<Rightarrow> False)"

definition is_notesAdd :: "event \<Rightarrow> bool" where
  "is_notesAdd e = (case e of NotesAdd nd \<Rightarrow> True | _ \<Rightarrow> False)"

definition is_write :: "event \<Rightarrow> bool" where
  "is_write e = (case e of NotesAdd nd \<Rightarrow> True | VaultSave nd \<Rightarrow> True | _ \<Rightarrow> False)"

definition is_refresh :: "event \<Rightarrow> bool" where
  "is_refresh e = (case e of QueueRoutesForUpdate \<Rightarrow> True | _ \<Rightarrow> False)"

text \<open>
  The events that the properties are about: status commands, database writes and
  refresh broadcasts. \<open>watched\<close> keeps them and drops the others.
\<close>

definition is_watched :: "event \<Rightarrow> bool" where
  "is_watched e = (is_setStatus e \<or> is_write e \<or> is_refresh e)"

definition watched :: "event list \<Rightarrow> event list" where
  "watched evs = filter is_watched evs"

text \<open>The exits of lines 176 to 181 and of line 191, which leave everything as it is.\<close>

definition early_exit :: "env \<Rightarrow> savePayload \<Rightarrow> editor \<Rightarrow> bool" where
  "early_exit env p s =
     (readonly env \<or> store_readonly s \<or>
      (case currentNote s of None \<Rightarrow> False | Some n \<Rightarrow> note_readonly n) \<or>
      (case note_of s (p_id p) of None \<Rightarrow> False | Some n \<Rightarrow> conflicted n))"

text \<open>The frame and the state of a save that gets as far as its write.\<close>

definition frame_of :: "env \<Rightarrow> savePayload \<Rightarrow> editor \<Rightarrow> save_frame" where
  "frame_of env p s =
     (case note_of s (p_id p) of
        None \<Rightarrow> \<lparr>f_id = p_id p, f_note = None, f_noteData = noteData_of env p,
                  f_locked = False, f_sessionId = p_sessionId p\<rparr>
      | Some n \<Rightarrow>
          \<lparr>f_id = p_id p, f_note = Some n,
           f_noteData = (if locked n then (noteData_of env p)\<lparr>nd_contentId := contentId n\<rparr>
                         else noteData_of env p),
           f_locked = locked n, f_sessionId = p_sessionId p\<rparr>)"

definition issued :: "env \<Rightarrow> savePayload \<Rightarrow> editor \<Rightarrow> editor" where
  "issued env p s =
     emit (if f_locked (frame_of env p s) then VaultSave (f_noteData (frame_of env p s))
           else NotesAdd (f_noteData (frame_of env p s)))
       (if isContentInvalid env (p_data p) then s\<lparr>sessionHistoryId := Some (clock s)\<rparr> else s)"

text \<open>The state in which the test of line 242 is made, if the save gets there.\<close>

definition settled :: "env \<Rightarrow> save_frame \<Rightarrow> write_result \<Rightarrow> editor \<Rightarrow> (string option \<times> editor) option" where
  "settled env fr w s =
     (case w of
        Rejected \<Rightarrow> None
      | Resolved r \<Rightarrow>
          if f_locked fr then Some (f_id fr, s)
          else map_option (\<lambda>s1. (r, s1)) (after_add env fr r s))"

text \<open>
  A persistence module in which an update without a title leaves the title of every
  stored note as it is: what the spec asks of the upsert, which never overwrites a
  field that is absent from the partial update.
\<close>

definition keeps_absent_title :: "env \<Rightarrow> bool" where
  "keeps_absent_title env =
     (\<forall>nd now db k n. nd_title nd = None \<longrightarrow> db k = Some n \<longrightarrow>
        (\<forall>r db'. notes_add env nd now db = Some (r, db') \<longrightarrow>
                    (\<exists>n'. db' k = Some n' \<and> title n' = title n)) \<and>
        (\<forall>db'. vault_save env nd now db = Some db' \<longrightarrow>
                    (\<exists>n'. db' k = Some n' \<and> title n' = title n)))"

text \<open>
  A run of content-change notifications: each one has its time, and the title, the
  content and the message type that \<^verbatim>\<open>saveContent\<close> is called with. Between two of them
  the runtime fires the timers that have become due. \<open>spaced t0 ns\<close> says that the
  notifications come in order, the first less than 500 ms after \<open>t0\<close> and each less than
  500 ms after the one before.
\<close>

type_synonym notification = "int \<times> string option \<times> string option \<times> editorEvents"

fun notifications ::
  "env \<Rightarrow> nat \<Rightarrow> notification list \<Rightarrow> editor \<Rightarrow> (callback list \<times> editor) option" where
  "notifications env fuel [] s = Some ([], s)"
| "notifications env fuel ((t, ttl, cnt, ty) # ns) s =
     (case run_timers env fuel t s of
        None \<Rightarrow> None
      | Some (cs, s1) \<Rightarrow>
          (case notifications env fuel ns (saveContent ttl cnt ty s1) of
             None \<Rightarrow> None
           | Some (cs', s2) \<Rightarrow> Some (cs @ cs', s2)))"

fun spaced :: "int \<Rightarrow> notification list \<Rightarrow> bool" where
  "spaced t0 [] = True"
| "spaced t0 ((t, ttl, cnt, ty) # ns) = (t0 \<le> t \<and> t < t0 + 500 \<and> spaced t ns)"

definition is_saveCb :: "callback \<Rightarrow> bool" where
  "is_saveCb c = (case c of SaveCb q sid \<Rightarrow> True | _ \<Rightarrow> False)"

text \<open>
  Sample payloads and states: a payload for note \<open>a\<close> and one for the locked note \<open>b\<close>,
  each under the session of its note; an empty document with an empty title for \<open>a\<close>;
  a conflicted note \<open>c\<close> that is open; an app-state item that records an edit of \<open>a\<close>.
\<close>

definition pay_a :: savePayload where
  "pay_a = \<lparr>p_title = Some ''Alpha 2'', p_id = Some ''a'', p_data = Some ''<p>text</p>'',
            p_type = ''tiptap'', p_sessionId = ''a_session'', p_sessionHistoryId = Some 1000\<rparr>"

definition pay_b :: savePayload where
  "pay_b = \<lparr>p_title = None, p_id = Some ''b'', p_data = Some ''<p>secret</p>'',
            p_type = ''tiptap'', p_sessionId = ''b_session'', p_sessionHistoryId = Some 1000\<rparr>"

definition pay_empty :: savePayload where
  "pay_empty = pay_a\<lparr>p_title := Some [], p_data := Some ''<p></p>''\<rparr>"

definition note_c :: noteType where
  "note_c = (blank_note ''c'')\<lparr>title := ''Gamma'', conflicted := True\<rparr>"

definition editing_c :: editor where
  "editing_c = loadNote sample_env note_c (initial sample_env (sample_db(''c'' \<mapsto> note_c)) None 1000)"

definition blob :: "int \<Rightarrow> appState" where
  "blob ts = \<lparr>editing = True, as_note = Some note_a, timestamp = ts\<rparr>"

text \<open>Note \<open>a\<close> is edited and saved, then \<open>b\<close> is opened before the timer fires.\<close>

definition typed_in_a :: editor where
  "typed_in_a = saveContent (Some ''Alpha 2'') (Some ''<p>text</p>'') EvContent editing_a"

definition switched_to_b :: editor where
  "switched_to_b = loadNote sample_env note_b typed_in_a"

text \<open>An empty document is saved into \<open>a\<close>, then real content is typed.\<close>

definition typed_again :: editor where
  "typed_again = saveContent None (Some ''<p>hello</p>'') EvContent
                   (snd (saveNote sample_env pay_empty (editing_a\<lparr>clock := 2000\<rparr>)))"

definition pay_hello :: savePayload where
  "pay_hello = \<lparr>p_title = None, p_id = Some ''a'', p_data = Some ''<p>hello</p>'',
      p_type = ''tiptap'', p_sessionId = ''a_session'', p_sessionHistoryId = Some 2000\<rparr>"

text \<open>The hook mounted at time 5000000 with an app-state item of the given timestamp.\<close>

definition resumed :: "int \<Rightarrow> editor" where
  "resumed ts = initial sample_env sample_db (Some (blob ts)) 5000000"

text \<open>Four notifications at 0, 100, 200 and 490 ms, typed into a new note.\<close>

definition keystrokes :: "notification list" where
  "keystrokes =
     [(0, None, Some ''<p>n</p>'', EvContent), (100, None, Some ''<p>no</p>'', EvContent),
      (200, None, Some ''<p>not</p>'', EvContent), (490, None, Some ''<p>note</p>'', EvContent)]"

definition fresh_editor :: editor where
  "fresh_editor = loadNote sample_env ((blank_note [])\<lparr>note_type := ''new''\<rparr>)
                    (initial sample_env sample_db None 0)"

section \<open>How the pieces behave\<close>

lemma emit_fields [simp]:
  "trace (emit e s) = trace s @ [e]"
  "sessionIdRef (emit e s) = sessionIdRef s"
  "sessionId (emit e s) = sessionId s"
  "currentNote (emit e s) = currentNote s"
  "currentContent (emit e s) = currentContent s"
  "sessionHistoryId (emit e s) = sessionHistoryId s"
  "saveCount (emit e s) = saveCount s"
  "db_notes (emit e s) = db_notes s"
  "clock (emit e s) = clock s"
  "pending (emit e s) = pending s"
  "next_handle (emit e s) = next_handle s"
  "timers (emit e s) = timers s"
  "currentEditingNote (emit e s) = currentEditingNote s"
  "store_readonly (emit e s) = store_readonly s"
  "mmkv_appState (emit e s) = mmkv_appState s"
  "currentlyEditing (emit e s) = currentlyEditing s"
  by (simp_all add: emit_def)

lemma postMessage_fields [simp]:
  "trace (postMessage ty d s) = trace s @ [PostMessage (sessionIdRef s) ty d]"
  "sessionIdRef (postMessage ty d s) = sessionIdRef s"
  "sessionId (postMessage ty d s) = sessionId s"
  "currentNote (postMessage ty d s) = currentNote s"
  "currentContent (postMessage ty d s) = currentContent s"
  "sessionHistoryId (postMessage ty d s) = sessionHistoryId s"
  "saveCount (postMessage ty d s) = saveCount s"
  "db_notes (postMessage ty d s) = db_notes s"
  "clock (postMessage ty d s) = clock s"
  "pending (postMessage ty d s) = pending s"
  "next_handle (postMessage ty d s) = next_handle s"
  "timers (postMessage ty d s) = timers s"
  "currentEditingNote (postMessage ty d s) = currentEditingNote s"
  "store_readonly (postMessage ty d s) = store_readonly s"
  "mmkv_appState (postMessage ty d s) = mmkv_appState s"
  "currentlyEditing (postMessage ty d s) = currentlyEditing s"
  by (simp_all add: postMessage_def)

lemma setTimeout_fields [simp]:
  "trace (snd (setTimeout c d s)) = trace s"
  "sessionIdRef (snd (setTimeout c d s)) = sessionIdRef s"
  "sessionId (snd (setTimeout c d s)) = sessionId s"
  "currentNote (snd (setTimeout c d s)) = currentNote s"
  "currentContent (snd (setTimeout c d s)) = currentContent s"
  "sessionHistoryId (snd (setTimeout c d s)) = sessionHistoryId s"
  "saveCount (snd (setTimeout c d s)) = saveCount s"
  "db_notes (snd (setTimeout c d s)) = db_notes s"
  "clock (snd (setTimeout c d s)) = clock s"
  "timers (snd (setTimeout c d s)) = timers s"
  "currentEditingNote (snd (setTimeout c d s)) = currentEditingNote s"
  "store_readonly (snd (setTimeout c d s)) = store_readonly s"
  "mmkv_appState (snd (setTimeout c d s)) = mmkv_appState s"
  "currentlyEditing (snd (setTimeout c d s)) = currentlyEditing s"
  "pending (snd (setTimeout c d s)) = pending s @ [\<lparr>handle = next_handle s, due = clock s + d, cb = c\<rparr>]"
  "next_handle (snd (setTimeout c d s)) = Suc (next_handle s)"
  "fst (setTimeout c d s) = next_handle s"
  by (simp_all add: setTimeout_def)

lemma is_watched_simps [simp]:
  "is_watched (SetStatus x y)"
  "is_watched (NotesAdd nd)"
  "is_watched (VaultSave nd)"
  "is_watched QueueRoutesForUpdate"
  "\<not> is_watched (SetSessionId x)"
  "\<not> is_watched Focus"
  "\<not> is_watched ClearContent"
  "\<not> is_watched ClearTags"
  "\<not> is_watched SetPlaceholder"
  "\<not> is_watched (SetTags t)"
  "\<not> is_watched SetSettings"
  "\<not> is_watched (PostMessage a b c)"
  "\<not> is_watched (Overlay v)"
  "\<not> is_watched (FsCancel i)"
  "\<not> is_watched (ContentRaw ci)"
  "\<not> is_watched (NoteCreated i)"
  "\<not> is_watched (OnChange d)"
  "\<not> is_watched ConsoleLog"
  "\<not> is_watched (GoToPage k)"
  "\<not> is_watched (LoadOverlay x)"
  "\<not> is_watched (DownloadMedia i)"
  "\<not> is_watched (DownloadImages i)"
  by (simp_all add: is_watched_def is_setStatus_def is_write_def is_refresh_def)

lemma watched_simps [simp]:
  "watched [] = []"
  "watched (xs @ ys) = watched xs @ watched ys"
  "watched (e # es) = (if is_watched e then e # watched es else watched es)"
  by (simp_all add: watched_def)

lemma filter_watched [simp]:
  "filter is_setStatus (watched evs) = filter is_setStatus evs"
  "filter is_write (watched evs) = filter is_write evs"
  "filter is_refresh (watched evs) = filter is_refresh evs"
  by (simp_all add: watched_def is_watched_def conj_commute cong: conj_cong)

lemma filter_notesAdd_write: "filter is_notesAdd (filter is_write evs) = filter is_notesAdd evs"
proof -
  have "\<And>e. (is_write e \<and> is_notesAdd e) = is_notesAdd e"
    by (auto simp: is_write_def is_notesAdd_def split: event.splits)
  then show ?thesis by simp
qed

lemma reset_fields [simp]:
  "sessionIdRef (reset env b s) = sessionIdRef s"
  "sessionId (reset env b s) = sessionId s"
  "currentNote (reset env b s) = None"
  "currentContent (reset env b s) = None"
  "sessionHistoryId (reset env b s) = None"
  "saveCount (reset env b s) = 0"
  "db_notes (reset env b s) = db_notes s"
  "clock (reset env b s) = clock s"
  "pending (reset env b s) = pending s"
  "next_handle (reset env b s) = next_handle s"
  "timers (reset env b s) = timers s"
  "mmkv_appState (reset env b s) = mmkv_appState s"
  "currentlyEditing (reset env b s) = currentlyEditing s"
  "watched (trace (reset env b s)) = watched (trace s)"
  by (simp_all add: reset_def Let_def split: option.splits)

lemma note_of_cong: "db_notes s' = db_notes s \<Longrightarrow> note_of s' i = note_of s i"
  by (simp add: note_of_def split: option.splits)

lemma mark_editing_fields [simp]:
  "trace (mark_editing env i s) = trace s"
  "sessionIdRef (mark_editing env i s) = sessionIdRef s"
  "sessionId (mark_editing env i s) = sessionId s"
  "currentNote (mark_editing env i s) = currentNote s"
  "currentContent (mark_editing env i s) = currentContent s"
  "sessionHistoryId (mark_editing env i s) = sessionHistoryId s"
  "saveCount (mark_editing env i s) = saveCount s"
  "db_notes (mark_editing env i s) = db_notes s"
  "clock (mark_editing env i s) = clock s"
  "timers (mark_editing env i s) = timers s"
  "mmkv_appState (mark_editing env i s) = mmkv_appState s"
  by (simp_all add: mark_editing_def)

lemma note_created_fields:
  assumes "note_created env fr i s = Some s1"
  shows "watched (trace s1) = watched (trace s)"
    and "sessionIdRef s1 = sessionIdRef s"
    and "sessionId s1 = sessionId s"
    and "sessionHistoryId s1 = sessionHistoryId s"
    and "saveCount s1 = saveCount s"
    and "db_notes s1 = db_notes s"
    and "clock s1 = clock s"
    and "timers s1 = timers s"
    and "pending s1 = pending s"
    and "next_handle s1 = next_handle s"
    and "currentContent s1 = currentContent s"
    and "mmkv_appState s1 = mmkv_appState s"
proof -
  have "watched (trace s1) = watched (trace s) \<and> sessionIdRef s1 = sessionIdRef s \<and>
     sessionId s1 = sessionId s \<and> sessionHistoryId s1 = sessionHistoryId s \<and>
     saveCount s1 = saveCount s \<and> db_notes s1 = db_notes s \<and> clock s1 = clock s \<and>
     timers s1 = timers s \<and> pending s1 = pending s \<and> next_handle s1 = next_handle s \<and>
     currentContent s1 = currentContent s \<and> mmkv_appState s1 = mmkv_appState s"
  proof (cases "f_note fr = None \<and> truthy i")
    case False
    with assms have "s1 = s" by (simp add: note_created_def)
    then show ?thesis by simp
  next
    case True
    show ?thesis
    proof (cases "note_of s i")
      case None
      with True assms show ?thesis by (simp add: note_created_def)
    next
      case (Some n)
      with True assms show ?thesis
        by (cases "hasOnNoteCreated env"; cases "truthy (nd_title (f_noteData fr))")
           (auto simp: note_created_def Let_def)
    qed
  qed
  then show "watched (trace s1) = watched (trace s)"
    and "sessionIdRef s1 = sessionIdRef s"
    and "sessionId s1 = sessionId s"
    and "sessionHistoryId s1 = sessionHistoryId s"
    and "saveCount s1 = saveCount s"
    and "db_notes s1 = db_notes s"
    and "clock s1 = clock s"
    and "timers s1 = timers s"
    and "pending s1 = pending s"
    and "next_handle s1 = next_handle s"
    and "currentContent s1 = currentContent s"
    and "mmkv_appState s1 = mmkv_appState s"
    by simp_all
qed

lemma after_add_fields:
  assumes "after_add env fr i s = Some s1"
  shows "watched (trace s1) = watched (trace s)"
    and "sessionIdRef s1 = sessionIdRef s"
    and "sessionId s1 = sessionId s"
    and "sessionHistoryId s1 = sessionHistoryId s"
    and "saveCount s1 = saveCount s"
    and "db_notes s1 = db_notes s"
    and "clock s1 = clock s"
    and "timers s1 = timers s"
    and "currentContent s1 = currentContent s"
    and "mmkv_appState s1 = mmkv_appState s"
proof -
  from assms obtain s0 where c: "note_created env fr i s = Some s0" and m: "s1 = mark_editing env i s0"
    by (auto simp: after_add_def)
  show "watched (trace s1) = watched (trace s)"
    and "sessionIdRef s1 = sessionIdRef s"
    and "sessionId s1 = sessionId s"
    and "sessionHistoryId s1 = sessionHistoryId s"
    and "saveCount s1 = saveCount s"
    and "db_notes s1 = db_notes s"
    and "clock s1 = clock s"
    and "timers s1 = timers s"
    and "currentContent s1 = currentContent s"
    and "mmkv_appState s1 = mmkv_appState s"
    using note_created_fields[OF c] m by simp_all
qed

lemma after_add_pending:
  assumes "after_add env fr i s = Some s1"
  shows "pending s1 = pending s \<or>
         pending s1 = pending s @ [\<lparr>handle = next_handle s, due = clock s, cb = SetEditingCb i\<rparr>]"
proof -
  from assms obtain s0 where c: "note_created env fr i s = Some s0" and m: "s1 = mark_editing env i s0"
    by (auto simp: after_add_def)
  show ?thesis using note_created_fields(7,9,10)[OF c] m by (simp add: mark_editing_def)
qed

lemma perform_write_fields [simp]:
  "trace (snd (perform_write env fr s)) = trace s"
  "sessionIdRef (snd (perform_write env fr s)) = sessionIdRef s"
  "sessionId (snd (perform_write env fr s)) = sessionId s"
  "currentNote (snd (perform_write env fr s)) = currentNote s"
  "currentContent (snd (perform_write env fr s)) = currentContent s"
  "sessionHistoryId (snd (perform_write env fr s)) = sessionHistoryId s"
  "saveCount (snd (perform_write env fr s)) = saveCount s"
  "clock (snd (perform_write env fr s)) = clock s"
  "pending (snd (perform_write env fr s)) = pending s"
  "next_handle (snd (perform_write env fr s)) = next_handle s"
  "timers (snd (perform_write env fr s)) = timers s"
  "mmkv_appState (snd (perform_write env fr s)) = mmkv_appState s"
  by (simp_all add: perform_write_def split: option.splits prod.splits)

lemma saveNote_finish_fields [simp]:
  "fst (saveNote_finish g s) = g_id g"
  "db_notes (snd (saveNote_finish g s)) = db_notes s"
  "currentNote (snd (saveNote_finish g s)) = currentNote s"
  "currentContent (snd (saveNote_finish g s)) = currentContent s"
  "sessionHistoryId (snd (saveNote_finish g s)) = sessionHistoryId s"
  "sessionIdRef (snd (saveNote_finish g s)) = sessionIdRef s"
  "saveCount (snd (saveNote_finish g s)) = Suc (saveCount s)"
  "clock (snd (saveNote_finish g s)) = clock s"
  "pending (snd (saveNote_finish g s)) = pending s"
  "next_handle (snd (saveNote_finish g s)) = next_handle s"
  "watched (trace (snd (saveNote_finish g s)))
     = watched (trace s) @ (if needs_refresh (g_note g) s then [QueueRoutesForUpdate] else [])"
  by (simp_all add: saveNote_finish_def Let_def)

lemma saveNote_begin_early:
  "early_exit env p s \<Longrightarrow> saveNote_begin env p s = (Done None, s)"
  by (auto simp: early_exit_def saveNote_begin_def Let_def split: option.splits)

lemma saveNote_begin_missing:
  assumes "\<not> early_exit env p s" and "truthy (p_id p)" and "note_of s (p_id p) = None"
  shows "saveNote_begin env p s =
     (Done None, reset env True (if isDefaultEditor env then s\<lparr>currentEditingNote := None\<rparr> else s))"
  using assms
  by (simp add: early_exit_def saveNote_begin_def Let_def split: option.splits)

lemma saveNote_begin_run:
  assumes "\<not> early_exit env p s" and "truthy (p_id p) \<longrightarrow> note_of s (p_id p) \<noteq> None"
  shows "saveNote_begin env p s = (Await (frame_of env p s), issued env p s)"
proof (cases "note_of s (p_id p)")
  case None
  with assms show ?thesis
    by (simp add: early_exit_def saveNote_begin_def frame_of_def issued_def Let_def)
next
  case (Some n)
  with assms show ?thesis
    by (cases "locked n")
       (simp_all add: early_exit_def saveNote_begin_def frame_of_def issued_def Let_def)
qed

lemma saveNote_begin_cases:
  obtains (early) "early_exit env p s" "saveNote_begin env p s = (Done None, s)"
  | (missing) "\<not> early_exit env p s" "truthy (p_id p)" "note_of s (p_id p) = None"
      "saveNote_begin env p s =
         (Done None, reset env True (if isDefaultEditor env then s\<lparr>currentEditingNote := None\<rparr> else s))"
  | (run) "\<not> early_exit env p s" "truthy (p_id p) \<longrightarrow> note_of s (p_id p) \<noteq> None"
      "saveNote_begin env p s = (Await (frame_of env p s), issued env p s)"
  using saveNote_begin_early saveNote_begin_missing saveNote_begin_run by blast

lemma saveNote_begin_Await:
  assumes "saveNote_begin env p s = (Await fr, s1)"
  shows "\<not> early_exit env p s" and "fr = frame_of env p s" and "s1 = issued env p s"
proof -
  have "\<not> early_exit env p s \<and> fr = frame_of env p s \<and> s1 = issued env p s"
  proof (cases rule: saveNote_begin_cases[of env p s])
    case early
    with assms show ?thesis by simp
  next
    case missing
    with assms show ?thesis by simp
  next
    case run
    with assms show ?thesis by simp
  qed
  then show "\<not> early_exit env p s" and "fr = frame_of env p s" and "s1 = issued env p s"
    by simp_all
qed

lemma frame_of_fields [simp]:
  "f_id (frame_of env p s) = p_id p"
  "f_sessionId (frame_of env p s) = p_sessionId p"
  "f_note (frame_of env p s) = note_of s (p_id p)"
  "f_locked (frame_of env p s) = (case note_of s (p_id p) of None \<Rightarrow> False | Some n \<Rightarrow> locked n)"
  "nd_id (f_noteData (frame_of env p s)) = p_id p"
  "nd_title (f_noteData (frame_of env p s)) = (if truthy (p_title p) then p_title p else None)"
  "nd_sessionId (f_noteData (frame_of env p s)) =
     (if isContentInvalid env (p_data p) then HNull else hist_of (p_sessionHistoryId p))"
  "nd_contentId (f_noteData (frame_of env p s)) =
     (case note_of s (p_id p) of None \<Rightarrow> None | Some n \<Rightarrow> if locked n then contentId n else None)"
  by (simp_all add: frame_of_def noteData_of_def split: option.splits)

lemma issued_fields [simp]:
  "trace (issued env p s) =
     trace s @ [if f_locked (frame_of env p s) then VaultSave (f_noteData (frame_of env p s))
                else NotesAdd (f_noteData (frame_of env p s))]"
  "sessionHistoryId (issued env p s) =
     (if isContentInvalid env (p_data p) then Some (clock s) else sessionHistoryId s)"
  "sessionIdRef (issued env p s) = sessionIdRef s"
  "db_notes (issued env p s) = db_notes s"
  "clock (issued env p s) = clock s"
  "saveCount (issued env p s) = saveCount s"
  "currentNote (issued env p s) = currentNote s"
  "currentContent (issued env p s) = currentContent s"
  "pending (issued env p s) = pending s"
  "next_handle (issued env p s) = next_handle s"
  by (simp_all add: issued_def)

lemma saveNote_written_settled:
  "saveNote_written env fr w s =
     (case settled env fr w s of
        None \<Rightarrow> (Done None, emit ConsoleLog s)
      | Some (i, s1) \<Rightarrow>
          if truthy i \<and> sessionIdRef s1 = f_sessionId fr
          then (case note_of s1 i of
                  None \<Rightarrow> (Done None, emit ConsoleLog s1)
                | Some n \<Rightarrow>
                    (Await \<lparr>g_id = i, g_note = n\<rparr>,
                     emit (SetStatus (timeConverter env (dateEdited n)) ''Saved'') s1))
          else (Done i, s1\<lparr>saveCount := Suc (saveCount s1)\<rparr>))"
proof (cases w)
  case Rejected
  then show ?thesis by (simp add: saveNote_written_def settled_def)
next
  case (Resolved r)
  show ?thesis
  proof (cases "f_locked fr")
    case True
    with Resolved show ?thesis by (simp add: saveNote_written_def settled_def Let_def)
  next
    case False
    with Resolved show ?thesis
      by (cases "after_add env fr r s") (simp_all add: saveNote_written_def settled_def Let_def)
  qed
qed

lemma settled_fields:
  assumes "settled env fr w s = Some (i, s1)"
  shows "watched (trace s1) = watched (trace s)"
    and "sessionIdRef s1 = sessionIdRef s"
    and "sessionHistoryId s1 = sessionHistoryId s"
    and "saveCount s1 = saveCount s"
    and "db_notes s1 = db_notes s"
    and "clock s1 = clock s"
    and "\<exists>r. w = Resolved r \<and> i = (if f_locked fr then f_id fr else r)"
proof -
  from assms obtain r where w: "w = Resolved r"
    by (cases w) (simp_all add: settled_def)
  have "watched (trace s1) = watched (trace s) \<and> sessionIdRef s1 = sessionIdRef s \<and>
        sessionHistoryId s1 = sessionHistoryId s \<and> saveCount s1 = saveCount s \<and>
        db_notes s1 = db_notes s \<and> clock s1 = clock s \<and> i = (if f_locked fr then f_id fr else r)"
  proof (cases "f_locked fr")
    case True
    with assms w show ?thesis by (simp add: settled_def)
  next
    case False
    show ?thesis
    proof (cases "after_add env fr r s")
      case None
      with assms w False show ?thesis by (simp add: settled_def)
    next
      case (Some s0)
      with assms w False have e: "i = r" "s1 = s0" by (simp_all add: settled_def)
      from after_add_fields[OF Some] e False show ?thesis by simp
    qed
  qed
  with w show "watched (trace s1) = watched (trace s)"
    and "sessionIdRef s1 = sessionIdRef s"
    and "sessionHistoryId s1 = sessionHistoryId s"
    and "saveCount s1 = saveCount s"
    and "db_notes s1 = db_notes s"
    and "clock s1 = clock s"
    and "\<exists>r. w = Resolved r \<and> i = (if f_locked fr then f_id fr else r)"
    by simp_all
qed

lemma saveNote_written_Done:
  assumes "saveNote_written env fr w s = (Done r, s1)"
  shows "watched (trace s1) = watched (trace s)"
    and "db_notes s1 = db_notes s"
    and "sessionHistoryId s1 = sessionHistoryId s"
    and "sessionIdRef s1 = sessionIdRef s"
    and "clock s1 = clock s"
proof -
  have "watched (trace s1) = watched (trace s) \<and> db_notes s1 = db_notes s \<and>
        sessionHistoryId s1 = sessionHistoryId s \<and> sessionIdRef s1 = sessionIdRef s \<and>
        clock s1 = clock s"
  proof (cases "settled env fr w s")
    case None
    with assms show ?thesis by (auto simp: saveNote_written_settled)
  next
    case (Some a)
    obtain i s0 where a: "a = (i, s0)" by (cases a)
    note f = settled_fields[OF Some[unfolded a]]
    show ?thesis
    proof (cases "truthy i \<and> sessionIdRef s0 = f_sessionId fr")
      case False
      with assms Some a f show ?thesis by (auto simp: saveNote_written_settled)
    next
      case True
      with assms Some a f show ?thesis
        by (cases "note_of s0 i") (auto simp: saveNote_written_settled)
    qed
  qed
  then show "watched (trace s1) = watched (trace s)"
    and "db_notes s1 = db_notes s"
    and "sessionHistoryId s1 = sessionHistoryId s"
    and "sessionIdRef s1 = sessionIdRef s"
    and "clock s1 = clock s"
    by simp_all
qed

lemma saveNote_written_Await:
  assumes "saveNote_written env fr w s = (Await g, s1)"
  shows "watched (trace s1)
           = watched (trace s) @ [SetStatus (timeConverter env (dateEdited (g_note g))) ''Saved'']"
    and "sessionIdRef s = f_sessionId fr"
    and "truthy (g_id g)"
    and "note_of s1 (g_id g) = Some (g_note g)"
    and "saveCount s1 = saveCount s"
    and "db_notes s1 = db_notes s"
    and "sessionHistoryId s1 = sessionHistoryId s"
    and "sessionIdRef s1 = sessionIdRef s"
    and "clock s1 = clock s"
    and "\<exists>r. w = Resolved r \<and> g_id g = (if f_locked fr then f_id fr else r)"
proof -
  have "watched (trace s1)
           = watched (trace s) @ [SetStatus (timeConverter env (dateEdited (g_note g))) ''Saved''] \<and>
        sessionIdRef s = f_sessionId fr \<and> truthy (g_id g) \<and>
        note_of s1 (g_id g) = Some (g_note g) \<and> saveCount s1 = saveCount s \<and>
        db_notes s1 = db_notes s \<and> sessionHistoryId s1 = sessionHistoryId s \<and>
        sessionIdRef s1 = sessionIdRef s \<and> clock s1 = clock s \<and>
        (\<exists>r. w = Resolved r \<and> g_id g = (if f_locked fr then f_id fr else r))"
  proof (cases "settled env fr w s")
    case None
    with assms show ?thesis by (simp add: saveNote_written_settled)
  next
    case (Some a)
    obtain i s0 where a: "a = (i, s0)" by (cases a)
    note f = settled_fields[OF Some[unfolded a]]
    show ?thesis
    proof (cases "truthy i \<and> sessionIdRef s0 = f_sessionId fr")
      case False
      with assms Some a show ?thesis by (auto simp: saveNote_written_settled)
    next
      case True
      show ?thesis
      proof (cases "note_of s0 i")
        case None
        with True assms Some a show ?thesis by (simp add: saveNote_written_settled)
      next
        case (Some n)
        with True assms \<open>settled env fr w s = Some a\<close> a
        have g: "g = \<lparr>g_id = i, g_note = n\<rparr>"
          and s1: "s1 = emit (SetStatus (timeConverter env (dateEdited n)) ''Saved'') s0"
          by (simp_all add: saveNote_written_settled)
        from g s1 f True Some show ?thesis by (simp add: note_of_cong[of "emit _ s0" s0])
      qed
    qed
  qed
  then show "watched (trace s1)
           = watched (trace s) @ [SetStatus (timeConverter env (dateEdited (g_note g))) ''Saved'']"
    and "sessionIdRef s = f_sessionId fr"
    and "truthy (g_id g)"
    and "note_of s1 (g_id g) = Some (g_note g)"
    and "saveCount s1 = saveCount s"
    and "db_notes s1 = db_notes s"
    and "sessionHistoryId s1 = sessionHistoryId s"
    and "sessionIdRef s1 = sessionIdRef s"
    and "clock s1 = clock s"
    and "\<exists>r. w = Resolved r \<and> g_id g = (if f_locked fr then f_id fr else r)"
    by simp_all
qed

lemma saveNote_written_stale:
  assumes "sessionIdRef s \<noteq> f_sessionId fr"
  shows "\<exists>r. fst (saveNote_written env fr w s) = Done r"
proof (cases "fst (saveNote_written env fr w s)")
  case (Done r)
  then show ?thesis by simp
next
  case (Await g)
  then have "saveNote_written env fr w s = (Await g, snd (saveNote_written env fr w s))"
    by (simp add: prod_eq_iff)
  from saveNote_written_Await(2)[OF this] assms show ?thesis by simp
qed

lemma saveNote_early:
  "early_exit env p s \<Longrightarrow> saveNote env p s = (None, s)"
  by (simp add: saveNote_def saveNote_begin_early)

lemma saveNote_missing:
  assumes "\<not> early_exit env p s" and "truthy (p_id p)" and "note_of s (p_id p) = None"
  shows "saveNote env p s =
     (None, reset env True (if isDefaultEditor env then s\<lparr>currentEditingNote := None\<rparr> else s))"
  using saveNote_begin_missing[OF assms] by (simp add: saveNote_def)

lemma saveNote_run_cases:
  assumes "\<not> early_exit env p s" and "truthy (p_id p) \<longrightarrow> note_of s (p_id p) \<noteq> None"
  obtains (stop) w s2 r s3 where
      "perform_write env (frame_of env p s) (issued env p s) = (w, s2)"
      "saveNote_written env (frame_of env p s) w s2 = (Done r, s3)"
      "saveNote env p s = (r, s3)"
  | (finish) w s2 g s3 where
      "perform_write env (frame_of env p s) (issued env p s) = (w, s2)"
      "saveNote_written env (frame_of env p s) w s2 = (Await g, s3)"
      "saveNote env p s = saveNote_finish g s3"
proof -
  obtain w s2 where pw: "perform_write env (frame_of env p s) (issued env p s) = (w, s2)"
    by (cases "perform_write env (frame_of env p s) (issued env p s)")
  obtain o3 s3 where wr: "saveNote_written env (frame_of env p s) w s2 = (o3, s3)"
    by (cases "saveNote_written env (frame_of env p s) w s2")
  show thesis
  proof (cases o3)
    case (Done r)
    with pw wr saveNote_begin_run[OF assms] have "saveNote env p s = (r, s3)"
      by (simp add: saveNote_def)
    with pw wr Done stop show thesis by blast
  next
    case (Await g)
    with pw wr saveNote_begin_run[OF assms] have "saveNote env p s = saveNote_finish g s3"
      by (simp add: saveNote_def)
    with pw wr Await finish show thesis by blast
  qed
qed

lemma watchedD:
  assumes "watched xs = watched ys @ zs"
  shows "filter is_setStatus xs = filter is_setStatus ys @ filter is_setStatus zs"
    and "filter is_write xs = filter is_write ys @ filter is_write zs"
    and "filter is_refresh xs = filter is_refresh ys @ filter is_refresh zs"
proof -
  have "filter is_setStatus (watched xs) = filter is_setStatus (watched ys @ zs)"
    and "filter is_write (watched xs) = filter is_write (watched ys @ zs)"
    and "filter is_refresh (watched xs) = filter is_refresh (watched ys @ zs)"
    using assms by simp_all
  then show "filter is_setStatus xs = filter is_setStatus ys @ filter is_setStatus zs"
    and "filter is_write xs = filter is_write ys @ filter is_write zs"
    and "filter is_refresh xs = filter is_refresh ys @ filter is_refresh zs"
    by simp_all
qed

lemma watched_issued:
  "watched (trace (issued env p s)) =
     watched (trace s) @ [if f_locked (frame_of env p s) then VaultSave (f_noteData (frame_of env p s))
                          else NotesAdd (f_noteData (frame_of env p s))]"
  by simp

text \<open>What a save adds to the watched events, case by case.\<close>

lemma saveNote_watched_cases:
  obtains (none) "watched (trace (snd (saveNote env p s))) = watched (trace s)"
      "fst (saveNote env p s) = None"
      "saveNote_begin env p s = (Done None, snd (saveNote env p s))"
  | (written) tl where
      "watched (trace (snd (saveNote env p s))) = watched (trace s) @
         (if f_locked (frame_of env p s) then VaultSave (f_noteData (frame_of env p s))
          else NotesAdd (f_noteData (frame_of env p s))) # tl"
      "saveNote_begin env p s = (Await (frame_of env p s), issued env p s)"
      "tl = [] \<or> sessionIdRef s = p_sessionId p \<and> (\<forall>e \<in> set tl. \<not> is_write e)"
proof (cases rule: saveNote_begin_cases[of env p s])
  case early
  then show thesis using none by (simp add: saveNote_early)
next
  case missing
  then show thesis using none by (simp add: saveNote_missing)
next
  case run
  let ?fr = "frame_of env p s"
  let ?wr = "if f_locked ?fr then VaultSave (f_noteData ?fr) else NotesAdd (f_noteData ?fr)"
  from run(1,2) show thesis
  proof (cases rule: saveNote_run_cases)
    case (stop w s2 r s3)
    from stop(1) have s2: "trace s2 = trace (issued env p s)"
      using perform_write_fields(1)[of env ?fr "issued env p s"] by simp
    from saveNote_written_Done(1)[OF stop(2)] s2 stop(3) run(3)
    have "watched (trace (snd (saveNote env p s))) = watched (trace s) @ ?wr # []"
      by simp
    from written[OF this run(3)] show thesis by simp
  next
    case (finish w s2 g s3)
    from finish(1) have s2: "trace s2 = trace (issued env p s)"
        "sessionIdRef s2 = sessionIdRef s"
      using perform_write_fields(1,2)[of env ?fr "issued env p s"] by simp_all
    let ?tl = "SetStatus (timeConverter env (dateEdited (g_note g))) ''Saved'' #
             (if needs_refresh (g_note g) s3 then [QueueRoutesForUpdate] else [])"
    from saveNote_written_Await(1,2)[OF finish(2)] s2 finish(3)
    have a: "watched (trace (snd (saveNote env p s))) = watched (trace s) @ ?wr # ?tl"
      and b: "sessionIdRef s = p_sessionId p"
      by simp_all
    have c: "\<forall>e \<in> set ?tl. \<not> is_write e"
      by (simp add: is_write_def)
    from written[OF a run(3)] b c show thesis by blast
  qed
qed

lemma perform_write_db:
  "db_notes (snd (perform_write env fr s)) =
     (if f_locked fr
      then (case vault_save env (f_noteData fr) (clock s) (db_notes s) of
              None \<Rightarrow> db_notes s | Some d \<Rightarrow> d)
      else (case notes_add env (f_noteData fr) (clock s) (db_notes s) of
              None \<Rightarrow> db_notes s | Some (r, d) \<Rightarrow> d))"
  by (simp add: perform_write_def split: option.splits prod.splits)

lemma perform_write_issued_db:
  "db_notes (snd (perform_write env (frame_of env p s) (issued env p s))) =
     (if f_locked (frame_of env p s)
      then (case vault_save env (f_noteData (frame_of env p s)) (clock s) (db_notes s) of
              None \<Rightarrow> db_notes s | Some d \<Rightarrow> d)
      else (case notes_add env (f_noteData (frame_of env p s)) (clock s) (db_notes s) of
              None \<Rightarrow> db_notes s | Some (r, d) \<Rightarrow> d))"
  unfolding perform_write_db by (simp split: option.splits)

lemma saveNote_run_db:
  assumes "\<not> early_exit env p s" and "truthy (p_id p) \<longrightarrow> note_of s (p_id p) \<noteq> None"
  shows "db_notes (snd (saveNote env p s)) =
     (if f_locked (frame_of env p s)
      then (case vault_save env (f_noteData (frame_of env p s)) (clock s) (db_notes s) of
              None \<Rightarrow> db_notes s | Some d \<Rightarrow> d)
      else (case notes_add env (f_noteData (frame_of env p s)) (clock s) (db_notes s) of
              None \<Rightarrow> db_notes s | Some (r, d) \<Rightarrow> d))"
proof -
  have "db_notes (snd (saveNote env p s))
           = db_notes (snd (perform_write env (frame_of env p s) (issued env p s)))"
    using assms
  proof (cases rule: saveNote_run_cases)
    case (stop w s2 r s3)
    from saveNote_written_Done(2)[OF stop(2)] stop(1,3) show ?thesis by simp
  next
    case (finish w s2 g s3)
    from saveNote_written_Await(6)[OF finish(2)] finish(1,3) show ?thesis by simp
  qed
  then show ?thesis by (simp only: perform_write_issued_db)
qed

lemma saveNote_written_Done_truthy:
  assumes "saveNote_written env fr w s = (Done r, s1)" and "truthy r"
  shows "sessionIdRef s \<noteq> f_sessionId fr"
proof (cases "settled env fr w s")
  case None
  with assms show ?thesis by (simp add: saveNote_written_settled truthy_def)
next
  case (Some a)
  obtain i s0 where a: "a = (i, s0)" by (cases a)
  note f = settled_fields[OF Some[unfolded a]]
  show ?thesis
  proof (cases "truthy i \<and> sessionIdRef s0 = f_sessionId fr")
    case False
    with assms Some a f(2) show ?thesis by (auto simp: saveNote_written_settled)
  next
    case True
    with assms Some a show ?thesis
      by (cases "note_of s0 i") (auto simp: saveNote_written_settled truthy_def)
  qed
qed

lemma note_of_SomeD: "note_of s (Some i) = Some n \<Longrightarrow> db_notes s i = Some n"
  by (simp add: note_of_def split: if_splits)

lemma withTimer_pending:
  "pending (withTimer k fn d s) =
     filter (\<lambda>t. Some (handle t) \<noteq> timers s k) (pending s)
       @ [\<lparr>handle = next_handle s, due = clock s + d, cb = fn\<rparr>]"
  by (cases "timers s k") (simp_all add: withTimer_def clearTimeout_def setTimeout_def Let_def)

lemma withTimer_fields [simp]:
  "timers (withTimer k fn d s) = (timers s)(k \<mapsto> next_handle s)"
  "next_handle (withTimer k fn d s) = Suc (next_handle s)"
  "clock (withTimer k fn d s) = clock s"
  "currentNote (withTimer k fn d s) = currentNote s"
  "sessionId (withTimer k fn d s) = sessionId s"
  "sessionIdRef (withTimer k fn d s) = sessionIdRef s"
  "sessionHistoryId (withTimer k fn d s) = sessionHistoryId s"
  "trace (withTimer k fn d s) = trace s"
  "db_notes (withTimer k fn d s) = db_notes s"
  "saveCount (withTimer k fn d s) = saveCount s"
  by (cases "timers s k"; simp add: withTimer_def clearTimeout_def setTimeout_def Let_def)+

lemma saveContent_pending:
  "pending (saveContent ttl cnt ty s) =
     filter (\<lambda>t. Some (handle t) \<noteq> timers s (timer_key s)) (pending s)
       @ [\<lparr>handle = next_handle s, due = clock s + 500,
           cb = SaveCb (save_params ttl cnt s) (sessionId s)\<rparr>]"
  by (simp add: saveContent_def withTimer_pending timer_key_def save_params_def Let_def)

lemma saveContent_fields [simp]:
  "timers (saveContent ttl cnt ty s) = (timers s)(timer_key s \<mapsto> next_handle s)"
  "next_handle (saveContent ttl cnt ty s) = Suc (next_handle s)"
  "clock (saveContent ttl cnt ty s) = clock s"
  "currentNote (saveContent ttl cnt ty s) = currentNote s"
  "sessionId (saveContent ttl cnt ty s) = sessionId s"
  "sessionIdRef (saveContent ttl cnt ty s) = sessionIdRef s"
  "sessionHistoryId (saveContent ttl cnt ty s) = sessionHistoryId s"
  "trace (saveContent ttl cnt ty s) = trace s"
  "db_notes (saveContent ttl cnt ty s) = db_notes s"
  "saveCount (saveContent ttl cnt ty s) = saveCount s"
  by (simp_all add: saveContent_def timer_key_def Let_def)

lemma timer_params_fields [simp]:
  "p_data (timer_params q sid s) = p_data q"
  "p_title (timer_params q sid s) = p_title q"
  "p_sessionId (timer_params q sid s) = p_sessionId q"
  "p_sessionHistoryId (timer_params q sid s) = p_sessionHistoryId q"
  by (simp_all add: timer_params_def)

lemma saveNote_run_history:
  assumes "\<not> early_exit env p s" and "truthy (p_id p) \<longrightarrow> note_of s (p_id p) \<noteq> None"
  shows "sessionHistoryId (snd (saveNote env p s)) = sessionHistoryId (issued env p s)"
  using assms
proof (cases rule: saveNote_run_cases)
  case (stop w s2 r s3)
  from stop(1) have "sessionHistoryId s2 = sessionHistoryId (issued env p s)"
    using perform_write_fields(6)[of env "frame_of env p s" "issued env p s"] by simp
  with saveNote_written_Done(3)[OF stop(2)] stop(3) show ?thesis by simp
next
  case (finish w s2 g s3)
  from finish(1) have "sessionHistoryId s2 = sessionHistoryId (issued env p s)"
    using perform_write_fields(6)[of env "frame_of env p s" "issued env p s"] by simp
  with saveNote_written_Await(7)[OF finish(2)] finish(3) show ?thesis by simp
qed

lemma saveNote_begin_Await_exists:
  assumes "saveNote_begin env p s = (Await fr, s1)"
  shows "truthy (p_id p) \<longrightarrow> note_of s (p_id p) \<noteq> None"
proof (cases rule: saveNote_begin_cases[of env p s])
  case early
  with assms show ?thesis by simp
next
  case missing
  with assms show ?thesis by simp
next
  case run
  then show ?thesis by simp
qed

lemma loadContent_fields [simp]:
  "currentNote (loadContent env n s) = Some n"
  "currentlyEditing (loadContent env n s) = currentlyEditing s"
  by (simp_all add: loadContent_def Let_def)

lemma loadImages_fields [simp]:
  "currentNote (loadImages s) = currentNote s"
  "currentlyEditing (loadImages s) = currentlyEditing s"
  by (simp_all add: loadImages_def split: option.splits)

lemma loadNote_same:
  assumes "note_type item \<noteq> ''new''" and "\<not> forced item"
      and "currentNote s = Some c" and "note_id c = note_id item"
  shows "loadNote env item s = s\<lparr>currentlyEditing := True\<rparr>"
  using assms by (simp add: loadNote_def Let_def)

lemma loadNote_other:
  assumes "note_type item \<noteq> ''new''"
      and "forced item \<or> (\<forall>c. currentNote s = Some c \<longrightarrow> note_id c \<noteq> note_id item)"
  shows "currentNote (loadNote env item s) = Some item \<and> currentlyEditing (loadNote env item s)"
proof -
  have g: "\<not> (\<not> forced item \<and>
      (case currentNote (s\<lparr>currentlyEditing := True\<rparr>) of None \<Rightarrow> False
       | Some c \<Rightarrow> note_id c = note_id item))"
    using assms(2) by (auto split: option.splits)
  show ?thesis
    unfolding loadNote_def Let_def using assms
    by (auto split: option.splits)
qed

lemma currentlyEditing_idem: "currentlyEditing s \<Longrightarrow> s\<lparr>currentlyEditing := True\<rparr> = s"
  by simp

lemma restoreEditorState_restorable:
  assumes "mmkv_appState s = Some a" and "restorable a (clock s)"
  shows "pending (restoreEditorState env s) =
           pending s @ [\<lparr>handle = next_handle s, due = clock s + 1, cb = LoadNoteCb (as_note a)\<rparr>]"
    and "mmkv_appState (restoreEditorState env s) = None"
    and "isRestoringState (restoreEditorState env s) = False"
  using assms by (simp_all add: restoreEditorState_def Let_def)

lemma restoreEditorState_not_restorable:
  assumes "mmkv_appState s = Some a" and "\<not> restorable a (clock s)"
  shows "restoreEditorState env s = s\<lparr>isRestoringState := False\<rparr>"
  using assms by (simp add: restoreEditorState_def)

lemma restoreEditorState_no_blob:
  assumes "mmkv_appState s = None" and "\<not> isRestoringState s"
  shows "restoreEditorState env s = s"
  using assms by (simp add: restoreEditorState_def)

lemma restorable_iff:
  "restorable a now \<longleftrightarrow>
     editing a \<and> (\<exists>n. as_note a = Some n \<and> \<not> locked n \<and> note_id n \<noteq> []) \<and>
     now < timestamp a + 3600000"
  by (auto simp: restorable_def split: option.splits)

lemma save_params_cong:
  "currentNote s' = currentNote s \<Longrightarrow> sessionId s' = sessionId s \<Longrightarrow>
   sessionHistoryId s' = sessionHistoryId s \<Longrightarrow> save_params ttl cnt s' = save_params ttl cnt s"
  by (simp add: save_params_def)

lemma run_timers_nothing_due:
  assumes "\<forall>t \<in> set (pending s). T < due t"
  shows "run_timers env (Suc k) T s = Some ([], s\<lparr>clock := max (clock s) T\<rparr>)"
proof -
  from assms have "filter (\<lambda>t. due t \<le> T) (pending s) = []"
    by (auto simp: filter_empty_conv)
  then show ?thesis by simp
qed

text \<open>One notification on a queue that holds nothing else than the timer of the key.\<close>

lemma notify_step:
  assumes "pending s = [] \<or> (\<exists>tm. pending s = [tm] \<and> timers s (timer_key s) = Some (handle tm) \<and> t < due tm)"
      and "clock s \<le> t"
  shows "run_timers env (Suc k) t s = Some ([], s\<lparr>clock := t\<rparr>)"
    and "pending (saveContent ttl cnt ty (s\<lparr>clock := t\<rparr>)) =
           [\<lparr>handle = next_handle s, due = t + 500,
             cb = SaveCb (save_params ttl cnt s) (sessionId s)\<rparr>]"
proof -
  from assms(1) have "\<forall>u \<in> set (pending s). t < due u" by auto
  from run_timers_nothing_due[OF this, of env k] assms(2)
  show "run_timers env (Suc k) t s = Some ([], s\<lparr>clock := t\<rparr>)" by (simp add: max_def)
  have k: "timer_key (s\<lparr>clock := t\<rparr>) = timer_key s" by (simp add: timer_key_def)
  have p: "save_params ttl cnt (s\<lparr>clock := t\<rparr>) = save_params ttl cnt s"
    by (simp add: save_params_def)
  from assms(1) have "filter (\<lambda>u. Some (handle u) \<noteq> timers s (timer_key s)) (pending s) = []"
    by auto
  then show "pending (saveContent ttl cnt ty (s\<lparr>clock := t\<rparr>)) =
           [\<lparr>handle = next_handle s, due = t + 500,
             cb = SaveCb (save_params ttl cnt s) (sessionId s)\<rparr>]"
    by (simp add: saveContent_pending k p)
qed

lemma notifications_coalesce:
  assumes "pending s = [tm]" and "timers s (timer_key s) = Some (handle tm)"
      and "due tm = clock s + 500" and "spaced (clock s) ns" and "ns \<noteq> []"
      and "last ns = (t, ttl, cnt, ty)"
  shows "\<exists>s' h. notifications env (Suc k) ns s = Some ([], s') \<and>
           pending s' = [\<lparr>handle = h, due = t + 500,
                           cb = SaveCb (save_params ttl cnt s) (sessionId s)\<rparr>] \<and>
           clock s' = t"
  using assms
proof (induction ns arbitrary: s tm)
  case Nil
  then show ?case by simp
next
  case (Cons n ns)
  obtain t1 ttl1 cnt1 ty1 where n: "n = (t1, ttl1, cnt1, ty1)" by (cases n)
  from Cons.prems(4) n have t1: "clock s \<le> t1" "t1 < clock s + 500" and sp: "spaced t1 ns"
    by simp_all
  let ?s0 = "s\<lparr>clock := t1\<rparr>"
  let ?s1 = "saveContent ttl1 cnt1 ty1 ?s0"
  have q: "pending s = [] \<or> (\<exists>tm. pending s = [tm] \<and> timers s (timer_key s) = Some (handle tm) \<and> t1 < due tm)"
    using Cons.prems(1,2,3) t1 by simp
  note st = notify_step(1)[OF q t1(1), of env k] notify_step(2)[OF q t1(1), of ttl1 cnt1 ty1]
  have k1: "timer_key ?s1 = timer_key s" by (simp add: timer_key_def)
  have pend1: "pending ?s1 = [\<lparr>handle = next_handle s, due = t1 + 500,
             cb = SaveCb (save_params ttl1 cnt1 s) (sessionId s)\<rparr>]"
    by (rule st(2))
  have tm1: "timers ?s1 (timer_key ?s1) = Some (next_handle s)"
    by (simp add: k1) (simp add: timer_key_def)
  have c1: "clock ?s1 = t1" by simp
  show ?case
  proof (cases "ns = []")
    case True
    with Cons.prems(6) n have "t = t1" "ttl = ttl1" "cnt = cnt1" "ty = ty1" by simp_all
    with True n st pend1 c1 show ?thesis by simp
  next
    case False
    with Cons.prems(6) have l: "last ns = (t, ttl, cnt, ty)" by simp
    have sp1: "spaced (clock ?s1) ns" using sp c1 by simp
    from Cons.IH[of ?s1 "\<lparr>handle = next_handle s, due = t1 + 500,
             cb = SaveCb (save_params ttl1 cnt1 s) (sessionId s)\<rparr>", OF pend1 _ _ sp1 False l] tm1 c1
    obtain s' h where r: "notifications env (Suc k) ns ?s1 = Some ([], s')"
      and p': "pending s' = [\<lparr>handle = h, due = t + 500,
                           cb = SaveCb (save_params ttl cnt ?s1) (sessionId ?s1)\<rparr>]"
      and c': "clock s' = t"
      by auto
    have "save_params ttl cnt ?s1 = save_params ttl cnt s"
      by (rule save_params_cong) simp_all
    with p' have p'': "pending s' = [\<lparr>handle = h, due = t + 500,
                           cb = SaveCb (save_params ttl cnt s) (sessionId s)\<rparr>]"
      by simp
    from st(1) r n have "notifications env (Suc k) (n # ns) s = Some ([], s')"
      by simp
    with p'' c' show ?thesis by blast
  qed
qed

lemma settled_pending:
  assumes "settled env fr w s = Some (i, s1)"
  shows "pending s1 = pending s \<or>
         (\<exists>j. pending s1 = pending s @ [\<lparr>handle = next_handle s, due = clock s, cb = SetEditingCb j\<rparr>])"
proof -
  from assms obtain r where w: "w = Resolved r"
    by (cases w) (simp_all add: settled_def)
  show ?thesis
  proof (cases "f_locked fr")
    case True
    with assms w show ?thesis by (simp add: settled_def)
  next
    case False
    show ?thesis
    proof (cases "after_add env fr r s")
      case None
      with assms w False show ?thesis by (simp add: settled_def)
    next
      case (Some s0)
      with assms w False have "s1 = s0" by (simp add: settled_def)
      with after_add_pending[OF Some] show ?thesis by blast
    qed
  qed
qed

lemma saveNote_written_pending:
  "pending (snd (saveNote_written env fr w s)) = pending s \<or>
   (\<exists>j. pending (snd (saveNote_written env fr w s)) =
          pending s @ [\<lparr>handle = next_handle s, due = clock s, cb = SetEditingCb j\<rparr>])"
proof (cases "settled env fr w s")
  case None
  then show ?thesis by (simp add: saveNote_written_settled)
next
  case (Some a)
  obtain i s0 where a: "a = (i, s0)" by (cases a)
  have "pending (snd (saveNote_written env fr w s)) = pending s0"
    using Some a by (simp add: saveNote_written_settled split: option.splits)
  with settled_pending[OF Some[unfolded a]] show ?thesis by simp
qed

lemma saveNote_written_clock: "clock (snd (saveNote_written env fr w s)) = clock s"
proof (cases "fst (saveNote_written env fr w s)")
  case (Done r)
  then have "saveNote_written env fr w s = (Done r, snd (saveNote_written env fr w s))"
    by (simp add: prod_eq_iff)
  from saveNote_written_Done(5)[OF this] show ?thesis .
next
  case (Await g)
  then have "saveNote_written env fr w s = (Await g, snd (saveNote_written env fr w s))"
    by (simp add: prod_eq_iff)
  from saveNote_written_Await(9)[OF this] show ?thesis .
qed

lemma saveNote_pending:
  "clock (snd (saveNote env p s)) = clock s \<and>
   (pending (snd (saveNote env p s)) = pending s \<or>
    (\<exists>j. pending (snd (saveNote env p s)) =
           pending s @ [\<lparr>handle = next_handle s, due = clock s, cb = SetEditingCb j\<rparr>]))"
proof (cases rule: saveNote_begin_cases[of env p s])
  case early
  then show ?thesis by (simp add: saveNote_early)
next
  case missing
  then show ?thesis by (simp add: saveNote_missing)
next
  case run
  let ?fr = "frame_of env p s"
  obtain w s2 where pw: "perform_write env ?fr (issued env p s) = (w, s2)"
    by (cases "perform_write env ?fr (issued env p s)")
  then have s2: "pending s2 = pending s" "clock s2 = clock s" "next_handle s2 = next_handle s"
    using perform_write_fields(8,9,10)[of env ?fr "issued env p s"] by simp_all
  let ?s3 = "snd (saveNote_written env ?fr w s2)"
  have e: "pending (snd (saveNote env p s)) = pending ?s3 \<and> clock (snd (saveNote env p s)) = clock ?s3"
    using run(3) pw by (simp add: saveNote_def split: prod.splits suspended.splits)
  from saveNote_written_pending[of env ?fr w s2] saveNote_written_clock[of env ?fr w s2] e s2
  show ?thesis by simp
qed

lemma save_callback_pending:
  "clock (save_callback env q sid s) = clock s \<and>
   (pending (save_callback env q sid s) = pending s \<or>
    (\<exists>j. pending (save_callback env q sid s) =
           pending s @ [\<lparr>handle = next_handle s, due = clock s, cb = SetEditingCb j\<rparr>]))"
proof (cases "hasOnChange env \<and> truthy (p_data (timer_params q sid s))")
  case True
  then show ?thesis by (simp add: save_callback_def Let_def)
next
  case False
  then have "save_callback env q sid s = snd (saveNote env (timer_params q sid s) s)"
    by (auto simp: save_callback_def Let_def)
  with saveNote_pending[of env "timer_params q sid s" s] show ?thesis by simp
qed

lemma run_timers_idle:
  "filter (\<lambda>t. due t \<le> T) (pending s) = [] \<Longrightarrow>
     run_timers env (Suc k) T s = Some ([], s\<lparr>clock := max (clock s) T\<rparr>)"
  by simp

lemma run_timers_fire:
  assumes "filter (\<lambda>t. due t \<le> T) (pending s) = [t]"
      and "run_timers env k T (fire env t s) = Some (cs, s')"
  shows "run_timers env (Suc k) T s = Some (cb t # cs, s')"
  using assms by simp

text \<open>The one pending save timer fires, and nothing that it leaves behind is a save.\<close>

lemma fire_single_save:
  assumes "pending s = [tm]" and "cb tm = SaveCb q sid" and "due tm \<le> T" and "clock s \<le> T"
  shows "\<exists>cs s'. run_timers env (Suc (Suc (Suc k))) T s = Some (SaveCb q sid # cs, s') \<and>
           (\<forall>c \<in> set cs. \<not> is_saveCb c)"
proof -
  define s0 where "s0 = s\<lparr>pending := filter (\<lambda>u. handle u \<noteq> handle tm) (pending s),
               clock := max (clock s) (due tm)\<rparr>"
  define s1 where "s1 = save_callback env q sid s0"
  have f: "fire env tm s = s1"
    using assms(2) by (simp add: fire_def run_callback_def s0_def s1_def)
  have d: "filter (\<lambda>t. due t \<le> T) (pending s) = [tm]" using assms(1,3) by simp
  have p0: "pending s0 = []" "clock s0 = max (clock s) (due tm)"
    using assms(1) by (simp_all add: s0_def)
  from save_callback_pending[of env q sid s0] p0
  have c1: "clock s1 = max (clock s) (due tm)"
    and alt: "pending s1 = [] \<or>
      (\<exists>j. pending s1 = [\<lparr>handle = next_handle s0, due = clock s0, cb = SetEditingCb j\<rparr>])"
    by (simp_all add: s1_def)
  from alt show ?thesis
  proof
    assume "pending s1 = []"
    then have "filter (\<lambda>t. due t \<le> T) (pending s1) = []" by simp
    from run_timers_idle[OF this, of env "Suc k"]
    have "run_timers env (Suc (Suc k)) T (fire env tm s) = Some ([], s1\<lparr>clock := max (clock s1) T\<rparr>)"
      by (simp only: f)
    from run_timers_fire[OF d this] assms(2) show ?thesis by simp
  next
    assume "\<exists>j. pending s1 = [\<lparr>handle = next_handle s0, due = clock s0, cb = SetEditingCb j\<rparr>]"
    then obtain j where one: "pending s1 = [\<lparr>handle = next_handle s0, due = clock s0, cb = SetEditingCb j\<rparr>]"
      by blast
    define e where "e = \<lparr>handle = next_handle s0, due = clock s0, cb = SetEditingCb j\<rparr>"
    have de: "due e \<le> T" using assms(3,4) p0 by (simp add: e_def)
    define s2 where "s2 = fire env e s1"
    have p2: "pending s2 = []"
      using one by (simp add: s2_def fire_def run_callback_def e_def)
    then have "filter (\<lambda>t. due t \<le> T) (pending s2) = []" by simp
    from run_timers_idle[OF this, of env k]
    have r3: "run_timers env (Suc k) T (fire env e s1) = Some ([], s2\<lparr>clock := max (clock s2) T\<rparr>)"
      by (simp only: s2_def)
    have "filter (\<lambda>t. due t \<le> T) (pending s1) = [e]" using one de by (simp add: e_def)
    from run_timers_fire[OF this r3]
    have "run_timers env (Suc (Suc k)) T (fire env tm s) =
        Some ([SetEditingCb j], s2\<lparr>clock := max (clock s2) T\<rparr>)"
      by (simp add: f e_def)
    from run_timers_fire[OF d this] assms(2)
    show ?thesis by (simp add: is_saveCb_def)
  qed
qed

lemmas run_defs =
  saveNote_def saveNote_begin_def perform_write_def saveNote_written_def saveNote_finish_def
  after_add_def note_created_def mark_editing_def needs_refresh_def noteData_of_def note_of_def
  reset_def loadNote_def loadContent_def loadImages_def emit_def postMessage_def setTimeout_def
  clearTimeout_def withTimer_def saveContent_def save_params_def timer_key_def timer_params_def
  save_callback_def run_callback_def fire_def restoreEditorState_def restorable_def
  truthy_def hist_of_def initial_def frame_of_def issued_def early_exit_def
  sample_env_def spec_notes_add_def spec_vault_save_def merge_note_def blank_note_def
  note_a_def note_b_def note_c_def sample_db_def editing_a_def editing_b_def editing_c_def
  pay_a_def pay_b_def pay_empty_def blob_def Let_def

lemma sample_env_keeps_absent_title: "keeps_absent_title sample_env"
  unfolding keeps_absent_title_def
  by (auto simp: sample_env_def spec_notes_add_def spec_vault_save_def merge_note_def Let_def
           split: option.splits if_splits)

lemma editing_sessions:
  "sessionIdRef editing_a = ''a_session''" "sessionIdRef editing_b = ''b_session''"
  by (simp_all add: run_defs)

lemma begin_pay_a:
  "saveNote_begin sample_env pay_a editing_a
     = (Await (frame_of sample_env pay_a editing_a), issued sample_env pay_a editing_a)"
  by (rule saveNote_begin_run) (simp_all add: run_defs)

lemmas run_defs2 = run_defs typed_in_a_def switched_to_b_def

lemmas run_defs3 = run_defs2 typed_again_def

lemma begin_pay_empty:
  "saveNote_begin sample_env pay_empty (editing_a\<lparr>clock := 2000\<rparr>)
     = (Await (frame_of sample_env pay_empty (editing_a\<lparr>clock := 2000\<rparr>)),
        issued sample_env pay_empty (editing_a\<lparr>clock := 2000\<rparr>))"
  by (rule saveNote_begin_run) (simp_all add: run_defs)

lemma typed_again_cb:
  "cb (last (pending typed_again)) = SaveCb pay_hello ''a_session''"
  by (simp add: run_defs3 pay_hello_def)

lemma begin_pay_hello:
  "saveNote_begin sample_env (timer_params pay_hello ''a_session'' typed_again) typed_again
     = (Await (frame_of sample_env (timer_params pay_hello ''a_session'' typed_again) typed_again),
        issued sample_env (timer_params pay_hello ''a_session'' typed_again) typed_again)"
  by (rule saveNote_begin_run) (simp_all add: run_defs3 pay_hello_def)

lemma fresh_editor_idle: "pending fresh_editor = []" "clock fresh_editor = 0"
  by (simp_all add: fresh_editor_def run_defs)

text \<open>The same run, evaluated: one save, of the text typed last, then the pointer update.\<close>

lemma keystrokes_run:
  "map_option fst (notifications sample_env (Suc 0) keystrokes fresh_editor) = Some []"
  "map_option (pending \<circ> snd) (notifications sample_env (Suc 0) keystrokes fresh_editor) =
     Some [\<lparr>handle = 3, due = 990,
            cb = SaveCb \<lparr>p_title = None, p_id = None, p_data = Some ''<p>note</p>'',
                         p_type = ''tiptap'', p_sessionId = ''_session'',
                         p_sessionHistoryId = Some 0\<rparr> ''_session''\<rparr>]"
  by (simp_all add: keystrokes_def fresh_editor_def run_defs)

text \<open>What a save of invalid content does once it has got to its write.\<close>

lemma invalid_content_after_begin:
  assumes inv: "isContentInvalid env (p_data p)"
      and b: "saveNote_begin env p s = (Await fr, s1)"
  shows "sessionHistoryId s1 = Some (clock s) \<and>
         nd_sessionId (f_noteData fr) = HNull \<and>
         filter is_write (trace s1) = filter is_write (trace s) @
           [if f_locked fr then VaultSave (f_noteData fr) else NotesAdd (f_noteData fr)] \<and>
         sessionHistoryId (snd (saveNote env p s)) = Some (clock s) \<and>
         (\<not> isContentInvalid env cnt \<and>
          cb (last (pending (saveContent ttl cnt ty (snd (saveNote env p s))))) = SaveCb q sid \<and>
          saveNote_begin env (timer_params q sid s3) s4 = (Await fr', s5)
            \<longrightarrow> nd_sessionId (f_noteData fr') = HNum (clock s))"
proof -
  note f = saveNote_begin_Await[OF b]
  note ex = saveNote_begin_Await_exists[OF b]
  have 1: "sessionHistoryId s1 = Some (clock s)" using f(3) inv by simp
  have 2: "nd_sessionId (f_noteData fr) = HNull" using f(2) inv by simp
  have 3: "filter is_write (trace s1) = filter is_write (trace s) @
           [if f_locked fr then VaultSave (f_noteData fr) else NotesAdd (f_noteData fr)]"
    using watchedD(2)[OF watched_issued[of env p s]] f(2,3) by (simp add: is_write_def)
  have 4: "sessionHistoryId (snd (saveNote env p s)) = Some (clock s)"
    using saveNote_run_history[OF f(1) ex] inv by simp
  have 5: "nd_sessionId (f_noteData fr') = HNum (clock s)"
    if v: "\<not> isContentInvalid env cnt"
      and c: "cb (last (pending (saveContent ttl cnt ty (snd (saveNote env p s))))) = SaveCb q sid"
      and b': "saveNote_begin env (timer_params q sid s3) s4 = (Await fr', s5)"
  proof -
    from c have q: "q = save_params ttl cnt (snd (saveNote env p s))"
      by (simp add: saveContent_pending)
    then have "p_data q = cnt" "p_sessionHistoryId q = Some (clock s)"
      using 4 by (simp_all add: save_params_def)
    with saveNote_begin_Await(2)[OF b'] v show ?thesis by (simp add: hist_of_def)
  qed
  from 1 2 3 4 5 show ?thesis by blast
qed

section \<open>The properties of the bridge\<close>

text \<open>
  C1. A save that was started with a session token sends no \<^verbatim>\<open>setStatus\<close> command when
  the active token is another one at the time its write completes. In the synchronous
  run (first part) the status commands of the trace are those from before the save. In
  the asynchronous run (second part) \<open>s2\<close> is any state the piece after the write may
  find: with another active token it ends there (\<open>Done\<close>, so \<open>saveNote_finish\<close> never
  runs) and the status commands of the trace are unchanged; starting the save sent none
  either. So a status command is sent only under the token the save was started with.
\<close>

theorem stale_save_sends_no_status:
  "(sessionIdRef s \<noteq> p_sessionId p \<longrightarrow>
      filter is_setStatus (trace (snd (saveNote env p s))) = filter is_setStatus (trace s)) \<and>
   (saveNote_begin env p s = (Await fr, s1) \<and> sessionIdRef s2 \<noteq> p_sessionId p \<longrightarrow>
      filter is_setStatus (trace s1) = filter is_setStatus (trace s) \<and>
      (\<exists>r. fst (saveNote_written env fr w s2) = Done r) \<and>
      filter is_setStatus (trace (snd (saveNote_written env fr w s2)))
        = filter is_setStatus (trace s2))"
proof (intro conjI impI)
  assume stale: "sessionIdRef s \<noteq> p_sessionId p"
  show "filter is_setStatus (trace (snd (saveNote env p s))) = filter is_setStatus (trace s)"
  proof (cases rule: saveNote_watched_cases[of env p s])
    case none
    then have "watched (trace (snd (saveNote env p s))) = watched (trace s) @ []" by simp
    from watchedD(1)[OF this] show ?thesis by simp
  next
    case (written tl)
    from written(3) stale have "tl = []" by simp
    with watchedD(1)[OF written(1)] show ?thesis by (simp add: is_setStatus_def)
  qed
next
  assume a: "saveNote_begin env p s = (Await fr, s1) \<and> sessionIdRef s2 \<noteq> p_sessionId p"
  then have b: "saveNote_begin env p s = (Await fr, s1)" and stale: "sessionIdRef s2 \<noteq> p_sessionId p"
    by simp_all
  note f = saveNote_begin_Await[OF b]
  from f(2) stale have st: "sessionIdRef s2 \<noteq> f_sessionId fr" by simp
  from watchedD(1)[OF watched_issued[of env p s]] f(3)
  show "filter is_setStatus (trace s1) = filter is_setStatus (trace s)"
    by (simp add: is_setStatus_def)
  from saveNote_written_stale[OF st]
  show d: "\<exists>r. fst (saveNote_written env fr w s2) = Done r" .
  then obtain r where "saveNote_written env fr w s2 = (Done r, snd (saveNote_written env fr w s2))"
    by (auto simp: prod_eq_iff)
  from saveNote_written_Done(1)[OF this]
  have "watched (trace (snd (saveNote_written env fr w s2))) = watched (trace s2) @ []" by simp
  from watchedD(1)[OF this]
  show "filter is_setStatus (trace (snd (saveNote_written env fr w s2)))
        = filter is_setStatus (trace s2)" by simp
qed

theorem stale_save_sends_no_status_witness:
  "sessionIdRef editing_b \<noteq> p_sessionId pay_a \<and>
   filter is_setStatus (trace (snd (saveNote sample_env pay_a editing_b)))
     = filter is_setStatus (trace editing_b) \<and>
   saveNote_begin sample_env pay_a editing_a
     = (Await (frame_of sample_env pay_a editing_a), issued sample_env pay_a editing_a) \<and>
   (\<exists>r. fst (saveNote_written sample_env (frame_of sample_env pay_a editing_a)
               (Resolved (Some ''a'')) editing_b) = Done r) \<and>
   filter is_setStatus (trace (snd (saveNote_written sample_env (frame_of sample_env pay_a editing_a)
               (Resolved (Some ''a'')) editing_b)))
     = filter is_setStatus (trace editing_b)"
proof -
  have st: "sessionIdRef editing_b \<noteq> p_sessionId pay_a"
    by (simp add: editing_sessions pay_a_def)
  from stale_save_sends_no_status[where s = editing_b and p = pay_a and env = sample_env] st
  have 1: "filter is_setStatus (trace (snd (saveNote sample_env pay_a editing_b)))
     = filter is_setStatus (trace editing_b)" by blast
  from stale_save_sends_no_status[where s = editing_a and p = pay_a and env = sample_env
      and fr = "frame_of sample_env pay_a editing_a" and ?s1.0 = "issued sample_env pay_a editing_a"
      and ?s2.0 = editing_b and w = "Resolved (Some ''a'')"] st begin_pay_a
  have 2: "(\<exists>r. fst (saveNote_written sample_env (frame_of sample_env pay_a editing_a)
               (Resolved (Some ''a'')) editing_b) = Done r) \<and>
   filter is_setStatus (trace (snd (saveNote_written sample_env (frame_of sample_env pay_a editing_a)
               (Resolved (Some ''a'')) editing_b)))
     = filter is_setStatus (trace editing_b)" by blast
  from st 1 2 begin_pay_a show ?thesis by blast
qed

text \<open>
  C2, as the code has it. The closure of the timer changes the id of the payload only
  when the payload has none: a payload that carries a note id is saved against that id,
  whatever the current note and the active session are when the timer fires. A payload
  without an id takes the id of the current note when the session is still the one of
  the payload. The token the closure compares the payload's token with is the variable
  of the same render, so the two are equal for every payload \<^verbatim>\<open>saveContent\<close> builds
  (last part). Without an \<^verbatim>\<open>onChange\<close> observer the callback is \<^verbatim>\<open>saveNote\<close> on that
  payload. So the payload that \<^verbatim>\<open>saveContent\<close> builds while a stored note is open is
  saved against that note in whatever state \<open>s\<close> the timer fires.
\<close>

theorem timer_saves_against_payload_id:
  "(truthy (p_id q) \<longrightarrow> timer_params q sid s = q) \<and>
   (\<not> truthy (p_id q) \<and> currentNote s = Some n \<and> p_sessionId q = sid \<and>
    sessionIdRef s = p_sessionId q \<longrightarrow>
      timer_params q sid s = q\<lparr>p_id := Some (note_id n)\<rparr>) \<and>
   (\<not> hasOnChange env \<longrightarrow>
      save_callback env q sid s = snd (saveNote env (timer_params q sid s) s)) \<and>
   (\<exists>h. last (pending (saveContent ttl cnt ty s0)) =
          \<lparr>handle = h, due = clock s0 + 500,
           cb = SaveCb (save_params ttl cnt s0) (p_sessionId (save_params ttl cnt s0))\<rparr>) \<and>
   (currentNote s0 = Some n0 \<and> note_id n0 \<noteq> [] \<longrightarrow>
      p_id (timer_params (save_params ttl cnt s0) (sessionId s0) s) = Some (note_id n0))"
proof (intro conjI impI)
  show "truthy (p_id q) \<Longrightarrow> timer_params q sid s = q"
    by (simp add: timer_params_def)
  show "\<not> truthy (p_id q) \<and> currentNote s = Some n \<and> p_sessionId q = sid \<and>
        sessionIdRef s = p_sessionId q \<Longrightarrow> timer_params q sid s = q\<lparr>p_id := Some (note_id n)\<rparr>"
    by (simp add: timer_params_def)
  show "\<not> hasOnChange env \<Longrightarrow>
        save_callback env q sid s = snd (saveNote env (timer_params q sid s) s)"
    by (simp add: save_callback_def Let_def)
  show "\<exists>h. last (pending (saveContent ttl cnt ty s0)) =
          \<lparr>handle = h, due = clock s0 + 500,
           cb = SaveCb (save_params ttl cnt s0) (p_sessionId (save_params ttl cnt s0))\<rparr>"
    by (simp add: saveContent_pending save_params_def)
  show "currentNote s0 = Some n0 \<and> note_id n0 \<noteq> [] \<Longrightarrow>
        p_id (timer_params (save_params ttl cnt s0) (sessionId s0) s) = Some (note_id n0)"
    by (simp add: timer_params_def save_params_def truthy_def)
qed

theorem timer_saves_against_payload_id_witness:
  "truthy (p_id pay_a) \<and> timer_params pay_a ''a_session'' switched_to_b = pay_a \<and>
   \<not> truthy (p_id (pay_a\<lparr>p_id := None\<rparr>)) \<and> currentNote editing_a = Some note_a \<and>
   sessionIdRef editing_a = p_sessionId (pay_a\<lparr>p_id := None\<rparr>) \<and>
   timer_params (pay_a\<lparr>p_id := None\<rparr>) ''a_session'' editing_a
     = pay_a\<lparr>p_id := None\<rparr>\<lparr>p_id := Some (note_id note_a)\<rparr> \<and>
   \<not> hasOnChange sample_env \<and>
   save_callback sample_env pay_a ''a_session'' switched_to_b
     = snd (saveNote sample_env (timer_params pay_a ''a_session'' switched_to_b) switched_to_b) \<and>
   note_id note_a \<noteq> [] \<and>
   p_id (timer_params (save_params (Some ''Alpha 2'') (Some ''<p>text</p>'') editing_a)
           (sessionId editing_a) switched_to_b) = Some (note_id note_a)"
proof -
  have h: "truthy (p_id pay_a)" "\<not> truthy (p_id (pay_a\<lparr>p_id := None\<rparr>))"
    "currentNote editing_a = Some note_a"
    "p_sessionId (pay_a\<lparr>p_id := None\<rparr>) = ''a_session''"
    "sessionIdRef editing_a = p_sessionId (pay_a\<lparr>p_id := None\<rparr>)"
    "\<not> hasOnChange sample_env"
    by (simp_all add: run_defs)
  from timer_saves_against_payload_id[where q = pay_a and sid = "''a_session''"
      and s = switched_to_b and env = sample_env] h
  have 1: "timer_params pay_a ''a_session'' switched_to_b = pay_a"
    and 3: "save_callback sample_env pay_a ''a_session'' switched_to_b
     = snd (saveNote sample_env (timer_params pay_a ''a_session'' switched_to_b) switched_to_b)"
    by blast+
  from timer_saves_against_payload_id[where q = "pay_a\<lparr>p_id := None\<rparr>" and sid = "''a_session''"
      and s = editing_a and n = note_a] h
  have 2: "timer_params (pay_a\<lparr>p_id := None\<rparr>) ''a_session'' editing_a
     = pay_a\<lparr>p_id := None\<rparr>\<lparr>p_id := Some (note_id note_a)\<rparr>"
    by blast
  have i: "note_id note_a \<noteq> []" by (simp add: run_defs)
  from timer_saves_against_payload_id[where ?s0.0 = editing_a and ?n0.0 = note_a
      and ttl = "Some ''Alpha 2''" and cnt = "Some ''<p>text</p>''" and s = switched_to_b] h(3) i
  have 4: "p_id (timer_params (save_params (Some ''Alpha 2'') (Some ''<p>text</p>'') editing_a)
           (sessionId editing_a) switched_to_b) = Some (note_id note_a)"
    by blast
  from h 1 2 3 i 4 show ?thesis by blast
qed

text \<open>
  C2 as it is stated does not hold. Text is typed into note \<open>a\<close>, then note \<open>b\<close> is opened
  before the 500 ms are over. The pending timer holds the payload of \<open>a\<close>, its token is
  not the active one, the current note is \<open>b\<close>, and the id the closure saves against is
  still \<open>a\<close>: it is not resolved again from the current note.
\<close>

theorem stale_payload_counterexample:
  "cb (pending switched_to_b ! 1) = SaveCb pay_a ''a_session'' \<and>
   p_sessionId pay_a \<noteq> sessionIdRef switched_to_b \<and>
   map_option note_id (currentNote switched_to_b) = Some ''b'' \<and>
   p_id (timer_params pay_a ''a_session'' switched_to_b) = Some ''a''"
  by (simp add: run_defs2)

text \<open>
  C3. When the note to save is locked, \<^verbatim>\<open>db.notes.add\<close> is never called by the save; and
  when the save is not stopped by a read-only editor or a conflicted record, its one
  write is \<^verbatim>\<open>db.vault.save\<close> on a partial update that carries the id of the payload and
  the content id of the stored note, and the collection afterwards is what
  \<^verbatim>\<open>db.vault.save\<close> made of it.
\<close>

theorem locked_note_saved_through_vault:
  assumes "note_of s (p_id p) = Some n" and "locked n"
  shows "filter is_notesAdd (trace (snd (saveNote env p s))) = filter is_notesAdd (trace s) \<and>
         (\<not> readonly env \<and> \<not> store_readonly s \<and> (\<forall>c. currentNote s = Some c \<longrightarrow> \<not> note_readonly c) \<and>
          \<not> conflicted n \<longrightarrow>
            (\<exists>nd. filter is_write (trace (snd (saveNote env p s)))
                     = filter is_write (trace s) @ [VaultSave nd] \<and>
                   nd_id nd = p_id p \<and> nd_contentId nd = contentId n \<and>
                   db_notes (snd (saveNote env p s))
                     = (case vault_save env nd (clock s) (db_notes s) of
                          None \<Rightarrow> db_notes s | Some d \<Rightarrow> d)))"
proof -
  let ?fr = "frame_of env p s"
  have lk: "f_locked ?fr" "nd_id (f_noteData ?fr) = p_id p"
    "nd_contentId (f_noteData ?fr) = contentId n"
    using assms by simp_all
  have w: "filter is_write (trace (snd (saveNote env p s))) = filter is_write (trace s) \<or>
           filter is_write (trace (snd (saveNote env p s)))
             = filter is_write (trace s) @ [VaultSave (f_noteData ?fr)]"
  proof (cases rule: saveNote_watched_cases[of env p s])
    case none
    then have "watched (trace (snd (saveNote env p s))) = watched (trace s) @ []" by simp
    from watchedD(2)[OF this] show ?thesis by simp
  next
    case (written tl)
    from written(3) have "filter is_write tl = []" by auto
    with watchedD(2)[OF written(1)] lk(1) show ?thesis by (simp add: is_write_def)
  qed
  have "filter is_notesAdd (filter is_write (trace (snd (saveNote env p s))))
          = filter is_notesAdd (filter is_write (trace s))"
  proof -
    have v: "filter is_notesAdd (xs @ [VaultSave nd]) = filter is_notesAdd xs" for xs nd
      by (simp add: is_notesAdd_def)
    from w show ?thesis
    proof
      assume "filter is_write (trace (snd (saveNote env p s))) = filter is_write (trace s)"
      then show ?thesis by (rule arg_cong)
    next
      assume "filter is_write (trace (snd (saveNote env p s)))
                = filter is_write (trace s) @ [VaultSave (f_noteData ?fr)]"
      then have "filter is_notesAdd (filter is_write (trace (snd (saveNote env p s))))
                = filter is_notesAdd (filter is_write (trace s) @ [VaultSave (f_noteData ?fr)])"
        by (rule arg_cong)
      also have "\<dots> = filter is_notesAdd (filter is_write (trace s))" by (rule v)
      finally show ?thesis .
    qed
  qed
  then have first: "filter is_notesAdd (trace (snd (saveNote env p s))) = filter is_notesAdd (trace s)"
    unfolding filter_notesAdd_write .
  have second: "\<exists>nd. filter is_write (trace (snd (saveNote env p s)))
                     = filter is_write (trace s) @ [VaultSave nd] \<and>
                   nd_id nd = p_id p \<and> nd_contentId nd = contentId n \<and>
                   db_notes (snd (saveNote env p s))
                     = (case vault_save env nd (clock s) (db_notes s) of
                          None \<Rightarrow> db_notes s | Some d \<Rightarrow> d)"
    if go: "\<not> readonly env \<and> \<not> store_readonly s \<and>
            (\<forall>c. currentNote s = Some c \<longrightarrow> \<not> note_readonly c) \<and> \<not> conflicted n"
  proof -
    from go assms have ne: "\<not> early_exit env p s"
      by (auto simp: early_exit_def split: option.splits)
    from assms have ex: "truthy (p_id p) \<longrightarrow> note_of s (p_id p) \<noteq> None" by simp
    have a: "filter is_write (trace (snd (saveNote env p s)))
               = filter is_write (trace s) @ [VaultSave (f_noteData ?fr)]"
    proof (cases rule: saveNote_watched_cases[of env p s])
      case none
      with saveNote_begin_run[OF ne ex] show ?thesis by simp
    next
      case (written tl)
      from written(3) have "filter is_write tl = []" by auto
      with watchedD(2)[OF written(1)] lk(1) show ?thesis by (simp add: is_write_def)
    qed
    have b: "db_notes (snd (saveNote env p s))
               = (case vault_save env (f_noteData ?fr) (clock s) (db_notes s) of
                    None \<Rightarrow> db_notes s | Some d \<Rightarrow> d)"
      using saveNote_run_db[OF ne ex] lk(1) by simp
    from a b lk show ?thesis by blast
  qed
  from first second show ?thesis by blast
qed

theorem locked_note_saved_through_vault_witness:
  "note_of editing_b (p_id pay_b) = Some note_b \<and> locked note_b \<and>
   \<not> readonly sample_env \<and> \<not> store_readonly editing_b \<and>
   currentNote editing_b = Some note_b \<and> \<not> note_readonly note_b \<and> \<not> conflicted note_b \<and>
   filter is_notesAdd (trace (snd (saveNote sample_env pay_b editing_b)))
     = filter is_notesAdd (trace editing_b) \<and>
   (\<exists>nd. filter is_write (trace (snd (saveNote sample_env pay_b editing_b)))
            = filter is_write (trace editing_b) @ [VaultSave nd] \<and>
          nd_id nd = p_id pay_b \<and> nd_contentId nd = contentId note_b \<and>
          db_notes (snd (saveNote sample_env pay_b editing_b))
            = (case vault_save sample_env nd (clock editing_b) (db_notes editing_b) of
                 None \<Rightarrow> db_notes editing_b | Some d \<Rightarrow> d))"
proof -
  have h: "note_of editing_b (p_id pay_b) = Some note_b" "locked note_b"
    by (simp_all add: run_defs)
  have g: "\<not> readonly sample_env" "\<not> store_readonly editing_b"
    "currentNote editing_b = Some note_b" "\<not> note_readonly note_b" "\<not> conflicted note_b"
    by (simp_all add: run_defs)
  then have "\<not> readonly sample_env \<and> \<not> store_readonly editing_b \<and>
   (\<forall>c. currentNote editing_b = Some c \<longrightarrow> \<not> note_readonly c) \<and> \<not> conflicted note_b"
    by simp
  with locked_note_saved_through_vault[OF h, of sample_env] h g show ?thesis by blast
qed

text \<open>
  C4. \<^verbatim>\<open>saveContent\<close> drops the timer that is registered under the key of the current
  note and queues a new one, 500 ms ahead (first part, in any state). So when
  notifications follow one another by less than 500 ms on a hook with no other timer
  pending, no callback runs in between, and afterwards exactly one timer is pending:
  the save of the payload of the last notification, due 500 ms after it. Nothing fires
  before that time; when it has come, the runtime runs that callback and after it no
  other save. The callback is \<^verbatim>\<open>saveNote\<close> on that payload unless an \<^verbatim>\<open>onChange\<close> observer
  takes the content instead.
\<close>

theorem debounce_coalesces_notifications:
  assumes "pending s = []" and "clock s \<le> t1" and "spaced t1 ns"
      and "last ((t1, ttl1, cnt1, ty1) # ns) = (t, ttl, cnt, ty)"
  shows "pending (saveContent ttl' cnt' ty' s0) =
           filter (\<lambda>u. Some (handle u) \<noteq> timers s0 (timer_key s0)) (pending s0)
             @ [\<lparr>handle = next_handle s0, due = clock s0 + 500,
                 cb = SaveCb (save_params ttl' cnt' s0) (sessionId s0)\<rparr>] \<and>
         (\<exists>s' h. notifications env (Suc k) ((t1, ttl1, cnt1, ty1) # ns) s = Some ([], s') \<and>
            pending s' = [\<lparr>handle = h, due = t + 500,
                            cb = SaveCb (save_params ttl cnt s) (sessionId s)\<rparr>] \<and>
            (\<forall>T. T < t + 500 \<longrightarrow> (\<exists>s''. run_timers env (Suc k) T s' = Some ([], s''))) \<and>
            (\<forall>T. t + 500 \<le> T \<longrightarrow>
               (\<exists>cs s''. run_timers env (Suc (Suc (Suc k))) T s' =
                           Some (SaveCb (save_params ttl cnt s) (sessionId s) # cs, s'') \<and>
                         (\<forall>c \<in> set cs. \<not> is_saveCb c)))) \<and>
         p_data (save_params ttl cnt s) = cnt \<and> p_title (save_params ttl cnt s) = ttl \<and>
         (\<not> (hasOnChange env \<and> truthy cnt) \<longrightarrow>
            run_callback env (SaveCb (save_params ttl cnt s) (sessionId s)) x =
              snd (saveNote env (timer_params (save_params ttl cnt s) (sessionId s) x) x))"
proof (intro conjI)
  show "p_data (save_params ttl cnt s) = cnt" "p_title (save_params ttl cnt s) = ttl"
    by (simp_all add: save_params_def)
  show "\<not> (hasOnChange env \<and> truthy cnt) \<longrightarrow>
            run_callback env (SaveCb (save_params ttl cnt s) (sessionId s)) x =
              snd (saveNote env (timer_params (save_params ttl cnt s) (sessionId s) x) x)"
    by (auto simp: run_callback_def save_callback_def Let_def save_params_def)
next
  show "pending (saveContent ttl' cnt' ty' s0) =
           filter (\<lambda>u. Some (handle u) \<noteq> timers s0 (timer_key s0)) (pending s0)
             @ [\<lparr>handle = next_handle s0, due = clock s0 + 500,
                 cb = SaveCb (save_params ttl' cnt' s0) (sessionId s0)\<rparr>]"
    by (rule saveContent_pending)
next
  let ?s0 = "s\<lparr>clock := t1\<rparr>"
  let ?s1 = "saveContent ttl1 cnt1 ty1 ?s0"
  let ?q = "SaveCb (save_params ttl cnt s) (sessionId s)"
  have q: "pending s = [] \<or> (\<exists>tm. pending s = [tm] \<and> timers s (timer_key s) = Some (handle tm) \<and> t1 < due tm)"
    using assms(1) by simp
  note st = notify_step(1)[OF q assms(2), of env k] notify_step(2)[OF q assms(2), of ttl1 cnt1 ty1]
  have "\<exists>s' h. notifications env (Suc k) ((t1, ttl1, cnt1, ty1) # ns) s = Some ([], s') \<and>
          pending s' = [\<lparr>handle = h, due = t + 500, cb = ?q\<rparr>] \<and> clock s' = t"
  proof (cases "ns = []")
    case True
    with assms(4) have "t = t1" "ttl = ttl1" "cnt = cnt1" "ty = ty1" by simp_all
    with True st show ?thesis by simp
  next
    case False
    with assms(4) have l: "last ns = (t, ttl, cnt, ty)" by simp
    have tm1: "timers ?s1 (timer_key ?s1) = Some (next_handle s)"
      by (simp add: timer_key_def)
    have sp1: "spaced (clock ?s1) ns" using assms(3) by simp
    from notifications_coalesce[OF st(2) _ _ sp1 False l, of env k] tm1
    obtain s' h where r: "notifications env (Suc k) ns ?s1 = Some ([], s')"
      and p': "pending s' = [\<lparr>handle = h, due = t + 500,
                           cb = SaveCb (save_params ttl cnt ?s1) (sessionId ?s1)\<rparr>]"
      and c': "clock s' = t"
      by auto
    have "save_params ttl cnt ?s1 = save_params ttl cnt s"
      by (rule save_params_cong) simp_all
    with p' have p'': "pending s' = [\<lparr>handle = h, due = t + 500, cb = ?q\<rparr>]"
      by simp
    from st(1) r have "notifications env (Suc k) ((t1, ttl1, cnt1, ty1) # ns) s = Some ([], s')"
      by simp
    with p'' c' show ?thesis by blast
  qed
  then obtain s' h where r: "notifications env (Suc k) ((t1, ttl1, cnt1, ty1) # ns) s = Some ([], s')"
    and p: "pending s' = [\<lparr>handle = h, due = t + 500, cb = ?q\<rparr>]" and c: "clock s' = t"
    by blast
  have early: "\<exists>s''. run_timers env (Suc k) T s' = Some ([], s'')"
    if "T < t + 500" for T
  proof -
    from p that have "\<forall>u \<in> set (pending s'). T < due u" by simp
    from run_timers_nothing_due[OF this, of env k] show ?thesis by simp
  qed
  have late: "\<exists>cs s''. run_timers env (Suc (Suc (Suc k))) T s' = Some (?q # cs, s'') \<and>
                (\<forall>c \<in> set cs. \<not> is_saveCb c)"
    if "t + 500 \<le> T" for T
  proof -
    from that c have "clock s' \<le> T" by simp
    from fire_single_save[OF p _ _ this, of "save_params ttl cnt s" "sessionId s" env k] that
    show ?thesis by simp
  qed
  from r p early late
  show "\<exists>s' h. notifications env (Suc k) ((t1, ttl1, cnt1, ty1) # ns) s = Some ([], s') \<and>
            pending s' = [\<lparr>handle = h, due = t + 500, cb = ?q\<rparr>] \<and>
            (\<forall>T. T < t + 500 \<longrightarrow> (\<exists>s''. run_timers env (Suc k) T s' = Some ([], s''))) \<and>
            (\<forall>T. t + 500 \<le> T \<longrightarrow>
               (\<exists>cs s''. run_timers env (Suc (Suc (Suc k))) T s' = Some (?q # cs, s'') \<and>
                         (\<forall>c \<in> set cs. \<not> is_saveCb c)))"
    by blast
qed

theorem debounce_coalesces_notifications_witness:
  "pending fresh_editor = [] \<and> clock fresh_editor \<le> 0 \<and> spaced 0 (tl keystrokes) \<and>
   last keystrokes = (490, None, Some ''<p>note</p>'', EvContent) \<and>
   \<not> (hasOnChange sample_env \<and> truthy (Some ''<p>note</p>'')) \<and>
   (\<exists>s' h. notifications sample_env (Suc 0) keystrokes fresh_editor = Some ([], s') \<and>
      pending s' = [\<lparr>handle = h, due = 490 + 500,
                      cb = SaveCb (save_params None (Some ''<p>note</p>'') fresh_editor)
                             (sessionId fresh_editor)\<rparr>] \<and>
      (\<exists>s''. run_timers sample_env (Suc 0) 989 s' = Some ([], s'')) \<and>
      (\<exists>cs s''. run_timers sample_env (Suc (Suc (Suc 0))) 990 s' =
                  Some (SaveCb (save_params None (Some ''<p>note</p>'') fresh_editor)
                          (sessionId fresh_editor) # cs, s'') \<and>
                filter is_saveCb cs = []) \<and>
      run_callback sample_env
          (SaveCb (save_params None (Some ''<p>note</p>'') fresh_editor) (sessionId fresh_editor)) s' =
        snd (saveNote sample_env
          (timer_params (save_params None (Some ''<p>note</p>'') fresh_editor) (sessionId fresh_editor) s') s'))"
proof -
  have h: "spaced 0 (tl keystrokes)"
    "last ((0, None, Some ''<p>n</p>'', EvContent) # tl keystrokes)
       = (490, None, Some ''<p>note</p>'', EvContent)"
    "keystrokes = (0, None, Some ''<p>n</p>'', EvContent) # tl keystrokes"
    by (simp_all add: keystrokes_def)
  have c: "clock fresh_editor \<le> 0" by (simp add: fresh_editor_idle)
  have o: "\<not> (hasOnChange sample_env \<and> truthy (Some ''<p>note</p>''))"
    by (simp add: sample_env_def)
  note d = debounce_coalesces_notifications[OF fresh_editor_idle(1) c h(1,2), where env = sample_env and k = 0]
  from d obtain s' hd where
    r: "notifications sample_env (Suc 0) ((0, None, Some ''<p>n</p>'', EvContent) # tl keystrokes) fresh_editor = Some ([], s')"
    and p: "pending s' = [\<lparr>handle = hd, due = 490 + 500,
                      cb = SaveCb (save_params None (Some ''<p>note</p>'') fresh_editor)
                             (sessionId fresh_editor)\<rparr>]"
    and e: "\<forall>T. T < 490 + 500 \<longrightarrow> (\<exists>s''. run_timers sample_env (Suc 0) T s' = Some ([], s''))"
    and l: "\<forall>T. 490 + 500 \<le> T \<longrightarrow>
               (\<exists>cs s''. run_timers sample_env (Suc (Suc (Suc 0))) T s' =
                           Some (SaveCb (save_params None (Some ''<p>note</p>'') fresh_editor)
                                   (sessionId fresh_editor) # cs, s'') \<and>
                         (\<forall>c \<in> set cs. \<not> is_saveCb c))"
    by blast
  from d[where x = s'] o
  have k: "run_callback sample_env
          (SaveCb (save_params None (Some ''<p>note</p>'') fresh_editor) (sessionId fresh_editor)) s' =
        snd (saveNote sample_env
          (timer_params (save_params None (Some ''<p>note</p>'') fresh_editor) (sessionId fresh_editor) s') s')"
    by blast
  from e have e': "\<exists>s''. run_timers sample_env (Suc 0) 989 s' = Some ([], s'')" by simp
  from l have "\<exists>cs s''. run_timers sample_env (Suc (Suc (Suc 0))) 990 s' =
                  Some (SaveCb (save_params None (Some ''<p>note</p>'') fresh_editor)
                          (sessionId fresh_editor) # cs, s'') \<and>
                (\<forall>c \<in> set cs. \<not> is_saveCb c)" by simp
  then have l': "\<exists>cs s''. run_timers sample_env (Suc (Suc (Suc 0))) 990 s' =
                  Some (SaveCb (save_params None (Some ''<p>note</p>'') fresh_editor)
                          (sessionId fresh_editor) # cs, s'') \<and>
                filter is_saveCb cs = []"
    by (simp add: filter_empty_conv)
  from r h(3) have r': "notifications sample_env (Suc 0) keystrokes fresh_editor = Some ([], s')"
    by simp
  from fresh_editor_idle(1) c h(1) o r' p e' l' k show ?thesis
    by (auto simp: keystrokes_def)
qed

text \<open>
  C5, as the code has it. The refresh broadcast is decided inside the test of line 242:
  a save that returns a non-empty id and whose token is still the active one sends
  \<^verbatim>\<open>queueRoutesForUpdate\<close> exactly when the save counter is below 2, or the title of the
  current note differs from the saved one, or the first 200 characters of the two
  previews differ (first part; third part for the piece after \<^verbatim>\<open>setStatus\<close>, in any
  state it may find). A save whose token is no longer the active one sends no
  broadcast (second part).
\<close>

theorem refresh_broadcast_decision:
  "(saveNote env p s = (Some i, s') \<and> i \<noteq> [] \<and> sessionIdRef s = p_sessionId p \<longrightarrow>
      (\<exists>n. db_notes s' i = Some n \<and>
           filter is_refresh (trace s') = filter is_refresh (trace s) @
             (if saveCount s < 2 \<or>
                 map_option title (currentNote s') \<noteq> Some (title n) \<or>
                 map_option (take 200) (Option.bind (currentNote s') headline)
                   \<noteq> map_option (take 200) (headline n)
              then [QueueRoutesForUpdate] else []))) \<and>
   (sessionIdRef s \<noteq> p_sessionId p \<longrightarrow>
      filter is_refresh (trace (snd (saveNote env p s))) = filter is_refresh (trace s)) \<and>
   filter is_refresh (trace (snd (saveNote_finish g s3))) = filter is_refresh (trace s3) @
      (if saveCount s3 < 2 \<or>
          map_option title (currentNote s3) \<noteq> Some (title (g_note g)) \<or>
          map_option (take 200) (Option.bind (currentNote s3) headline)
            \<noteq> map_option (take 200) (headline (g_note g))
       then [QueueRoutesForUpdate] else [])"
proof (intro conjI impI)
  show "filter is_refresh (trace (snd (saveNote_finish g s3))) = filter is_refresh (trace s3) @
      (if saveCount s3 < 2 \<or>
          map_option title (currentNote s3) \<noteq> Some (title (g_note g)) \<or>
          map_option (take 200) (Option.bind (currentNote s3) headline)
            \<noteq> map_option (take 200) (headline (g_note g))
       then [QueueRoutesForUpdate] else [])"
    using watchedD(3)[OF saveNote_finish_fields(11)[of g s3]]
    by (simp add: needs_refresh_def is_refresh_def)
next
  assume stale: "sessionIdRef s \<noteq> p_sessionId p"
  show "filter is_refresh (trace (snd (saveNote env p s))) = filter is_refresh (trace s)"
  proof (cases rule: saveNote_watched_cases[of env p s])
    case none
    then have "watched (trace (snd (saveNote env p s))) = watched (trace s) @ []" by simp
    from watchedD(3)[OF this] show ?thesis by simp
  next
    case (written tl)
    from written(3) stale have "tl = []" by simp
    with watchedD(3)[OF written(1)] show ?thesis by (simp add: is_refresh_def)
  qed
next
  assume a: "saveNote env p s = (Some i, s') \<and> i \<noteq> [] \<and> sessionIdRef s = p_sessionId p"
  then have res: "saveNote env p s = (Some i, s')" and i: "i \<noteq> []"
    and same: "sessionIdRef s = p_sessionId p" by simp_all
  let ?fr = "frame_of env p s"
  have ne: "\<not> early_exit env p s"
    using res saveNote_early[of env p s] by auto
  have ex: "truthy (p_id p) \<longrightarrow> note_of s (p_id p) \<noteq> None"
    using res ne saveNote_missing[of env p s] by auto
  from ne ex show "\<exists>n. db_notes s' i = Some n \<and>
           filter is_refresh (trace s') = filter is_refresh (trace s) @
             (if saveCount s < 2 \<or>
                 map_option title (currentNote s') \<noteq> Some (title n) \<or>
                 map_option (take 200) (Option.bind (currentNote s') headline)
                   \<noteq> map_option (take 200) (headline n)
              then [QueueRoutesForUpdate] else [])"
  proof (cases rule: saveNote_run_cases)
    case (stop w s2 r s3)
    from stop(3) res have "r = Some i" by simp
    with i have "truthy r" by (simp add: truthy_def)
    from saveNote_written_Done_truthy[OF stop(2) this] stop(1) same
    show ?thesis using perform_write_fields(2)[of env ?fr "issued env p s"] by simp
  next
    case (finish w s2 g s3)
    from finish(1) have s2: "trace s2 = trace (issued env p s)" "saveCount s2 = saveCount s"
      using perform_write_fields(1,7)[of env ?fr "issued env p s"] by simp_all
    note aw = saveNote_written_Await[OF finish(2)]
    from finish(3) res have gi: "g_id g = Some i" and s': "s' = snd (saveNote_finish g s3)"
      by (simp_all add: prod_eq_iff)
    from aw(4) gi have n: "db_notes s' i = Some (g_note g)"
      using note_of_SomeD[of s3 i "g_note g"] s' by simp
    have "watched (trace s') = watched (trace s) @
            (if f_locked ?fr then VaultSave (f_noteData ?fr) else NotesAdd (f_noteData ?fr)) #
            SetStatus (timeConverter env (dateEdited (g_note g))) ''Saved'' #
            (if needs_refresh (g_note g) s3 then [QueueRoutesForUpdate] else [])"
      using aw(1) s2 s' by simp
    from watchedD(3)[OF this]
    have "filter is_refresh (trace s') = filter is_refresh (trace s) @
            (if needs_refresh (g_note g) s3 then [QueueRoutesForUpdate] else [])"
      by (simp add: is_refresh_def)
    moreover have "needs_refresh (g_note g) s3 =
            (saveCount s < 2 \<or>
             map_option title (currentNote s') \<noteq> Some (title (g_note g)) \<or>
             map_option (take 200) (Option.bind (currentNote s') headline)
               \<noteq> map_option (take 200) (headline (g_note g)))"
      using aw(5) s2(2) s' by (simp add: needs_refresh_def)
    ultimately show ?thesis using n by auto
  qed
qed

theorem refresh_broadcast_decision_witness:
  "saveNote sample_env pay_a editing_a = (Some ''a'', snd (saveNote sample_env pay_a editing_a)) \<and>
   sessionIdRef editing_a = p_sessionId pay_a \<and> saveCount editing_a < 2 \<and>
   filter is_refresh (trace (snd (saveNote sample_env pay_a editing_a)))
     = filter is_refresh (trace editing_a) @ [QueueRoutesForUpdate] \<and>
   sessionIdRef editing_b \<noteq> p_sessionId pay_a \<and>
   filter is_refresh (trace (snd (saveNote sample_env pay_a editing_b)))
     = filter is_refresh (trace editing_b)"
proof -
  have r: "fst (saveNote sample_env pay_a editing_a) = Some ''a''"
    by (simp add: run_defs)
  then have e: "saveNote sample_env pay_a editing_a = (Some ''a'', snd (saveNote sample_env pay_a editing_a))"
    by (simp add: prod_eq_iff)
  have m: "sessionIdRef editing_a = p_sessionId pay_a" "sessionIdRef editing_b \<noteq> p_sessionId pay_a"
    by (simp_all add: editing_sessions pay_a_def)
  have c: "saveCount editing_a < 2" by (simp add: run_defs)
  from refresh_broadcast_decision[where env = sample_env and p = pay_a and s = editing_a
      and i = "''a''" and s' = "snd (saveNote sample_env pay_a editing_a)"] e m(1) c
  have 1: "filter is_refresh (trace (snd (saveNote sample_env pay_a editing_a)))
        = filter is_refresh (trace editing_a) @ [QueueRoutesForUpdate]"
    by auto
  from refresh_broadcast_decision[where env = sample_env and p = pay_a and s = editing_b] m(2)
  have 2: "filter is_refresh (trace (snd (saveNote sample_env pay_a editing_b)))
     = filter is_refresh (trace editing_b)"
    by blast
  from e m c 1 2 show ?thesis by blast
qed

text \<open>
  C5 as it is stated does not hold for every completed save. Note \<open>b\<close> is open and no
  save has been counted yet; a save that was started under the session of \<open>a\<close>
  completes and returns the id \<open>a\<close>, the counter goes from 0 to 1, and the only event
  is the write: no broadcast, although this is one of the first two saves.
\<close>

theorem refresh_broadcast_counterexample:
  "saveCount editing_b < 2 \<and>
   fst (saveNote sample_env pay_a editing_b) = Some ''a'' \<and>
   saveCount (snd (saveNote sample_env pay_a editing_b)) = 1 \<and>
   trace (snd (saveNote sample_env pay_a editing_b))
     = trace editing_b @ [NotesAdd (noteData_of sample_env pay_a)]"
  by (simp add: run_defs)

text \<open>
  C6. A save of invalid content that is not stopped by a read-only editor, a missing
  note or a conflicted record gets to its write, sets the history token of the hook to
  the current time and writes a partial update whose history token is \<^verbatim>\<open>null\<close>; the
  token is still the new one when the save is over. A payload that \<^verbatim>\<open>saveContent\<close>
  builds after that save, with valid content, is written with the new token, whenever
  its timer fires.
\<close>

theorem invalid_content_starts_new_history_session:
  assumes inv: "isContentInvalid env (p_data p)"
      and go: "\<not> readonly env" "\<not> store_readonly s"
              "\<forall>c. currentNote s = Some c \<longrightarrow> \<not> note_readonly c"
      and ex: "truthy (p_id p) \<longrightarrow> (\<exists>n. note_of s (p_id p) = Some n \<and> \<not> conflicted n)"
  shows "(\<exists>fr s1. saveNote_begin env p s = (Await fr, s1) \<and>
            sessionHistoryId s1 = Some (clock s) \<and>
            nd_sessionId (f_noteData fr) = HNull \<and>
            filter is_write (trace s1) = filter is_write (trace s) @
              [if f_locked fr then VaultSave (f_noteData fr) else NotesAdd (f_noteData fr)]) \<and>
         sessionHistoryId (snd (saveNote env p s)) = Some (clock s) \<and>
         (\<not> isContentInvalid env cnt \<and>
          cb (last (pending (saveContent ttl cnt ty (snd (saveNote env p s))))) = SaveCb q sid \<and>
          saveNote_begin env (timer_params q sid s3) s4 = (Await fr', s5)
            \<longrightarrow> nd_sessionId (f_noteData fr') = HNum (clock s))"
proof -
  have ne: "\<not> early_exit env p s"
    using go ex
    by (auto simp: early_exit_def note_of_def truthy_def split: option.splits if_splits)
  from ex have ex': "truthy (p_id p) \<longrightarrow> note_of s (p_id p) \<noteq> None" by auto
  from saveNote_begin_run[OF ne ex']
  have b: "saveNote_begin env p s = (Await (frame_of env p s), issued env p s)" .
  from invalid_content_after_begin[OF inv b, of cnt ttl ty q sid s3 s4 fr' s5] b
  show ?thesis by blast
qed

theorem invalid_content_starts_new_history_session_witness:
  "isContentInvalid sample_env (p_data pay_empty) \<and>
   \<not> readonly sample_env \<and> \<not> store_readonly (editing_a\<lparr>clock := 2000\<rparr>) \<and>
   currentNote (editing_a\<lparr>clock := 2000\<rparr>) = Some note_a \<and> \<not> note_readonly note_a \<and>
   truthy (p_id pay_empty) \<and>
   note_of (editing_a\<lparr>clock := 2000\<rparr>) (p_id pay_empty) = Some note_a \<and> \<not> conflicted note_a \<and>
   sessionHistoryId (editing_a\<lparr>clock := 2000\<rparr>) = Some 1000 \<and>
   (\<exists>fr s1. saveNote_begin sample_env pay_empty (editing_a\<lparr>clock := 2000\<rparr>) = (Await fr, s1) \<and>
      sessionHistoryId s1 = Some 2000 \<and> nd_sessionId (f_noteData fr) = HNull) \<and>
   sessionHistoryId (snd (saveNote sample_env pay_empty (editing_a\<lparr>clock := 2000\<rparr>))) = Some 2000 \<and>
   \<not> isContentInvalid sample_env (Some ''<p>hello</p>'') \<and>
   nd_sessionId (f_noteData (frame_of sample_env
       (timer_params pay_hello ''a_session'' typed_again) typed_again)) = HNum 2000"
proof -
  have h: "isContentInvalid sample_env (p_data pay_empty)"
    "\<not> isContentInvalid sample_env (Some ''<p>hello</p>'')"
    "sessionHistoryId (editing_a\<lparr>clock := 2000\<rparr>) = Some 1000"
    by (simp_all add: run_defs)
  have g: "\<not> readonly sample_env" "\<not> store_readonly (editing_a\<lparr>clock := 2000\<rparr>)"
    "currentNote (editing_a\<lparr>clock := 2000\<rparr>) = Some note_a" "\<not> note_readonly note_a"
    "truthy (p_id pay_empty)"
    "note_of (editing_a\<lparr>clock := 2000\<rparr>) (p_id pay_empty) = Some note_a" "\<not> conflicted note_a"
    "clock (editing_a\<lparr>clock := 2000\<rparr>) = 2000"
    by (simp_all add: run_defs)
  from g(3,4) have g3: "\<forall>c. currentNote (editing_a\<lparr>clock := 2000\<rparr>) = Some c \<longrightarrow> \<not> note_readonly c"
    by simp
  from g(6,7) have g6: "truthy (p_id pay_empty) \<longrightarrow>
      (\<exists>n. note_of (editing_a\<lparr>clock := 2000\<rparr>) (p_id pay_empty) = Some n \<and> \<not> conflicted n)"
    by blast
  from invalid_content_starts_new_history_session[OF h(1) g(1,2) g3 g6,
      where cnt = "Some ''<p>hello</p>''" and ttl = None and ty = EvContent and q = pay_hello
        and sid = "''a_session''" and ?s3.0 = typed_again and ?s4.0 = typed_again
        and fr' = "frame_of sample_env (timer_params pay_hello ''a_session'' typed_again) typed_again"
        and ?s5.0 = "issued sample_env (timer_params pay_hello ''a_session'' typed_again) typed_again"]
    h(2) typed_again_cb[unfolded typed_again_def] begin_pay_hello g(8)
  have "(\<exists>fr s1. saveNote_begin sample_env pay_empty (editing_a\<lparr>clock := 2000\<rparr>) = (Await fr, s1) \<and>
      sessionHistoryId s1 = Some 2000 \<and> nd_sessionId (f_noteData fr) = HNull) \<and>
   sessionHistoryId (snd (saveNote sample_env pay_empty (editing_a\<lparr>clock := 2000\<rparr>))) = Some 2000 \<and>
   nd_sessionId (f_noteData (frame_of sample_env
       (timer_params pay_hello ''a_session'' typed_again) typed_again)) = HNum 2000"
    by auto
  with h g show ?thesis by blast
qed

text \<open>
  C7. A request to open a note that is not new and not forced, for the id of the
  current note, returns at line 302: only the flag \<^verbatim>\<open>currentlyEditing\<close>, which is set
  before the test, may have changed; nothing is sent, no session token is made, no
  content is loaded. Opening the same note a second time changes nothing at all.
\<close>

theorem loadNote_same_note_is_noop:
  assumes "note_type item \<noteq> ''new''" and "\<not> forced item"
  shows "(currentNote s = Some c \<and> note_id c = note_id item \<longrightarrow>
            loadNote env item s = s\<lparr>currentlyEditing := True\<rparr> \<and>
            trace (loadNote env item s) = trace s \<and>
            sessionIdRef (loadNote env item s) = sessionIdRef s \<and>
            sessionId (loadNote env item s) = sessionId s \<and>
            sessionHistoryId (loadNote env item s) = sessionHistoryId s \<and>
            currentContent (loadNote env item s) = currentContent s) \<and>
         loadNote env item (loadNote env item s) = loadNote env item s"
proof (intro conjI impI)
  assume a: "currentNote s = Some c \<and> note_id c = note_id item"
  then have e: "loadNote env item s = s\<lparr>currentlyEditing := True\<rparr>"
    using loadNote_same[OF assms, of s c env] by simp
  then show "loadNote env item s = s\<lparr>currentlyEditing := True\<rparr>"
    and "trace (loadNote env item s) = trace s"
    and "sessionIdRef (loadNote env item s) = sessionIdRef s"
    and "sessionId (loadNote env item s) = sessionId s"
    and "sessionHistoryId (loadNote env item s) = sessionHistoryId s"
    and "currentContent (loadNote env item s) = currentContent s"
    by simp_all
next
  let ?s' = "loadNote env item s"
  have "\<exists>c. currentNote ?s' = Some c \<and> note_id c = note_id item \<and> currentlyEditing ?s'"
  proof (cases "\<exists>c. currentNote s = Some c \<and> note_id c = note_id item")
    case True
    then obtain c where c: "currentNote s = Some c" "note_id c = note_id item" by blast
    from loadNote_same[OF assms c, of env] c show ?thesis by simp
  next
    case False
    then have "forced item \<or> (\<forall>c. currentNote s = Some c \<longrightarrow> note_id c \<noteq> note_id item)"
      by blast
    from loadNote_other[OF assms(1) this, of env] show ?thesis by simp
  qed
  then obtain c where c: "currentNote ?s' = Some c" "note_id c = note_id item"
    and e: "currentlyEditing ?s'" by blast
  from loadNote_same[OF assms c, of env] currentlyEditing_idem[OF e]
  show "loadNote env item ?s' = ?s'" by simp
qed

theorem loadNote_same_note_is_noop_witness:
  "note_type note_a \<noteq> ''new'' \<and> \<not> forced note_a \<and> currentNote editing_a = Some note_a \<and>
   loadNote sample_env note_a editing_a = editing_a\<lparr>currentlyEditing := True\<rparr> \<and>
   trace (loadNote sample_env note_a editing_a) = trace editing_a \<and>
   sessionIdRef (loadNote sample_env note_a editing_a) = sessionIdRef editing_a \<and>
   loadNote sample_env note_a (loadNote sample_env note_a editing_a)
     = loadNote sample_env note_a editing_a \<and>
   loadNote sample_env note_a (loadNote sample_env note_a editing_b)
     = loadNote sample_env note_a editing_b"
proof -
  have h: "note_type note_a \<noteq> ''new''" "\<not> forced note_a" "currentNote editing_a = Some note_a"
    by (simp_all add: run_defs)
  from loadNote_same_note_is_noop[OF h(1,2), of editing_a note_a sample_env]
    loadNote_same_note_is_noop[OF h(1,2), of editing_b note_a sample_env] h
  show ?thesis by blast
qed

text \<open>
  C8. With an app-state item in the store, \<^verbatim>\<open>restoreEditorState\<close> queues the load of its
  note (1 ms ahead) and removes the item exactly when the item says \<^verbatim>\<open>editing\<close>, its note
  has an id and is not locked, and the time is less than its timestamp plus 3600000;
  a second call then finds no item and does nothing. Otherwise only the flag
  \<^verbatim>\<open>isRestoringState\<close> is cleared. An item that is 3600001 ms old is not restored; for
  one that is 3599999 ms old the other conditions decide. The queued callback is
  \<^verbatim>\<open>loadNote\<close> on the note.
\<close>

theorem restore_only_fresh_unlocked_edit:
  assumes "mmkv_appState s = Some a"
  shows "(if editing a \<and> (\<exists>n. as_note a = Some n \<and> \<not> locked n \<and> note_id n \<noteq> []) \<and>
             clock s < timestamp a + 3600000
          then pending (restoreEditorState env s) =
                 pending s @ [\<lparr>handle = next_handle s, due = clock s + 1,
                               cb = LoadNoteCb (as_note a)\<rparr>] \<and>
               mmkv_appState (restoreEditorState env s) = None \<and>
               restoreEditorState env (restoreEditorState env s) = restoreEditorState env s
          else restoreEditorState env s = s\<lparr>isRestoringState := False\<rparr>) \<and>
         (timestamp a = clock s - 3600001 \<longrightarrow>
            restoreEditorState env s = s\<lparr>isRestoringState := False\<rparr>) \<and>
         (timestamp a = clock s - 3599999 \<longrightarrow>
            restorable a (clock s) =
              (editing a \<and> (\<exists>n. as_note a = Some n \<and> \<not> locked n \<and> note_id n \<noteq> []))) \<and>
         run_callback env (LoadNoteCb (Some n)) s' = loadNote env n s'"
proof (intro conjI impI)
  show "run_callback env (LoadNoteCb (Some n)) s' = loadNote env n s'"
    by (simp add: run_callback_def)
next
  assume "timestamp a = clock s - 3600001"
  then have "\<not> restorable a (clock s)" by (simp add: restorable_iff)
  from restoreEditorState_not_restorable[OF assms this]
  show "restoreEditorState env s = s\<lparr>isRestoringState := False\<rparr>" .
next
  assume "timestamp a = clock s - 3599999"
  then show "restorable a (clock s) =
              (editing a \<and> (\<exists>n. as_note a = Some n \<and> \<not> locked n \<and> note_id n \<noteq> []))"
    by (simp add: restorable_iff)
next
  show "if editing a \<and> (\<exists>n. as_note a = Some n \<and> \<not> locked n \<and> note_id n \<noteq> []) \<and>
             clock s < timestamp a + 3600000
          then pending (restoreEditorState env s) =
                 pending s @ [\<lparr>handle = next_handle s, due = clock s + 1,
                               cb = LoadNoteCb (as_note a)\<rparr>] \<and>
               mmkv_appState (restoreEditorState env s) = None \<and>
               restoreEditorState env (restoreEditorState env s) = restoreEditorState env s
          else restoreEditorState env s = s\<lparr>isRestoringState := False\<rparr>"
  proof (cases "restorable a (clock s)")
    case True
    note r = restoreEditorState_restorable[OF assms True, of env]
    from restoreEditorState_no_blob[of "restoreEditorState env s" env] r
    have "restoreEditorState env (restoreEditorState env s) = restoreEditorState env s" by simp
    with r True show ?thesis by (simp add: restorable_iff)
  next
    case False
    from restoreEditorState_not_restorable[OF assms False, of env] False
    show ?thesis by (simp add: restorable_iff)
  qed
qed

theorem restore_only_fresh_unlocked_edit_witness:
  "mmkv_appState (resumed 1400001) = Some (blob 1400001) \<and>
   timestamp (blob 1400001) = clock (resumed 1400001) - 3599999 \<and>
   pending (restoreEditorState sample_env (resumed 1400001))
     = pending (resumed 1400001) @
         [\<lparr>handle = next_handle (resumed 1400001), due = clock (resumed 1400001) + 1,
           cb = LoadNoteCb (as_note (blob 1400001))\<rparr>] \<and>
   mmkv_appState (restoreEditorState sample_env (resumed 1400001)) = None \<and>
   restoreEditorState sample_env (restoreEditorState sample_env (resumed 1400001))
     = restoreEditorState sample_env (resumed 1400001) \<and>
   mmkv_appState (resumed 1399999) = Some (blob 1399999) \<and>
   timestamp (blob 1399999) = clock (resumed 1399999) - 3600001 \<and>
   restoreEditorState sample_env (resumed 1399999) = (resumed 1399999)\<lparr>isRestoringState := False\<rparr>"
proof -
  have h: "mmkv_appState (resumed 1400001) = Some (blob 1400001)"
    "mmkv_appState (resumed 1399999) = Some (blob 1399999)"
    "timestamp (blob 1400001) = clock (resumed 1400001) - 3599999"
    "timestamp (blob 1399999) = clock (resumed 1399999) - 3600001"
    by (simp_all add: resumed_def run_defs)
  have f: "editing (blob 1400001) \<and>
      (\<exists>n. as_note (blob 1400001) = Some n \<and> \<not> locked n \<and> note_id n \<noteq> []) \<and>
      clock (resumed 1400001) < timestamp (blob 1400001) + 3600000"
    by (simp add: resumed_def run_defs)
  from restore_only_fresh_unlocked_edit[OF h(1), of sample_env] f
  have 1: "pending (restoreEditorState sample_env (resumed 1400001))
     = pending (resumed 1400001) @
         [\<lparr>handle = next_handle (resumed 1400001), due = clock (resumed 1400001) + 1,
           cb = LoadNoteCb (as_note (blob 1400001))\<rparr>] \<and>
   mmkv_appState (restoreEditorState sample_env (resumed 1400001)) = None \<and>
   restoreEditorState sample_env (restoreEditorState sample_env (resumed 1400001))
     = restoreEditorState sample_env (resumed 1400001)"
    by simp
  from restore_only_fresh_unlocked_edit[OF h(2), of sample_env] h(4)
  have 2: "restoreEditorState sample_env (resumed 1399999) = (resumed 1399999)\<lparr>isRestoringState := False\<rparr>"
    by blast
  from h 1 2 show ?thesis by blast
qed

text \<open>
  C9. When the hook is read-only, or the store says so, or the current note is
  read-only, or the stored note of the payload is conflicted, \<^verbatim>\<open>saveNote\<close> returns
  \<^verbatim>\<open>undefined\<close> and leaves the whole state as it was: nothing is written or sent, the
  save counter, the history token, the current note and the current content are
  unchanged.
\<close>

theorem saveNote_early_exit_is_noop:
  assumes "readonly env \<or> store_readonly s \<or> (\<exists>c. currentNote s = Some c \<and> note_readonly c) \<or>
           (\<exists>n. note_of s (p_id p) = Some n \<and> conflicted n)"
  shows "saveNote_begin env p s = (Done None, s) \<and> saveNote env p s = (None, s)"
proof -
  from assms have "early_exit env p s"
    by (auto simp: early_exit_def)
  then show ?thesis by (simp add: saveNote_begin_early saveNote_early)
qed

theorem saveNote_early_exit_is_noop_witness:
  "(\<exists>n. note_of editing_c (p_id (pay_a\<lparr>p_id := Some ''c''\<rparr>)) = Some n \<and> conflicted n) \<and>
   saveNote sample_env (pay_a\<lparr>p_id := Some ''c''\<rparr>) editing_c = (None, editing_c) \<and>
   readonly (sample_env\<lparr>readonly := True\<rparr>) \<and>
   saveNote (sample_env\<lparr>readonly := True\<rparr>) pay_a editing_a = (None, editing_a)"
proof -
  have c: "\<exists>n. note_of editing_c (p_id (pay_a\<lparr>p_id := Some ''c''\<rparr>)) = Some n \<and> conflicted n"
    by (simp add: run_defs)
  then have "readonly sample_env \<or> store_readonly editing_c \<or>
      (\<exists>c. currentNote editing_c = Some c \<and> note_readonly c) \<or>
      (\<exists>n. note_of editing_c (p_id (pay_a\<lparr>p_id := Some ''c''\<rparr>)) = Some n \<and> conflicted n)"
    by blast
  from saveNote_early_exit_is_noop[OF this]
  have 1: "saveNote sample_env (pay_a\<lparr>p_id := Some ''c''\<rparr>) editing_c = (None, editing_c)"
    by blast
  have r: "readonly (sample_env\<lparr>readonly := True\<rparr>)" by simp
  then have "readonly (sample_env\<lparr>readonly := True\<rparr>) \<or> store_readonly editing_a \<or>
      (\<exists>c. currentNote editing_a = Some c \<and> note_readonly c) \<or>
      (\<exists>n. note_of editing_a (p_id pay_a) = Some n \<and> conflicted n)"
    by blast
  from saveNote_early_exit_is_noop[OF this]
  have 2: "saveNote (sample_env\<lparr>readonly := True\<rparr>) pay_a editing_a = (None, editing_a)"
    by blast
  from c 1 r 2 show ?thesis by blast
qed

text \<open>
  C10. A payload whose title is absent or empty gives a partial update without a
  title. \<^verbatim>\<open>db.notes.add\<close> and \<^verbatim>\<open>db.vault.save\<close> are parameters here; when they leave the
  title of a stored note alone for an update that has none (\<open>keeps_absent_title\<close>),
  every stored note has the same title after the save as before.
\<close>

theorem falsy_title_never_overwrites:
  assumes "\<not> truthy (p_title p)"
  shows "nd_title (noteData_of env p) = None \<and>
         (saveNote_begin env p s = (Await fr, s1) \<longrightarrow> nd_title (f_noteData fr) = None) \<and>
         (keeps_absent_title env \<and> db_notes s k = Some n \<longrightarrow>
            (\<exists>n'. db_notes (snd (saveNote env p s)) k = Some n' \<and> title n' = title n))"
proof (intro conjI impI)
  show "nd_title (noteData_of env p) = None" using assms by (simp add: noteData_of_def)
next
  assume "saveNote_begin env p s = (Await fr, s1)"
  from saveNote_begin_Await(2)[OF this] assms show "nd_title (f_noteData fr) = None" by simp
next
  assume a: "keeps_absent_title env \<and> db_notes s k = Some n"
  then have keep: "keeps_absent_title env" and k: "db_notes s k = Some n" by simp_all
  show "\<exists>n'. db_notes (snd (saveNote env p s)) k = Some n' \<and> title n' = title n"
  proof (cases rule: saveNote_begin_cases[of env p s])
    case early
    with k show ?thesis by (simp add: saveNote_early)
  next
    case missing
    with k show ?thesis by (simp add: saveNote_missing)
  next
    case run
    let ?fr = "frame_of env p s"
    have t: "nd_title (f_noteData ?fr) = None" using assms by simp
    have db: "db_notes (snd (saveNote env p s)) =
        (if f_locked ?fr
         then (case vault_save env (f_noteData ?fr) (clock s) (db_notes s) of
                 None \<Rightarrow> db_notes s | Some d \<Rightarrow> d)
         else (case notes_add env (f_noteData ?fr) (clock s) (db_notes s) of
                 None \<Rightarrow> db_notes s | Some (r, d) \<Rightarrow> d))"
      by (rule saveNote_run_db[OF run(1,2)])
    show ?thesis
    proof (cases "f_locked ?fr")
      case True
      show ?thesis
      proof (cases "vault_save env (f_noteData ?fr) (clock s) (db_notes s)")
        case None
        with db True k show ?thesis by simp
      next
        case (Some d)
        from keep t k Some have "\<exists>n'. d k = Some n' \<and> title n' = title n"
          unfolding keeps_absent_title_def by blast
        with db True Some show ?thesis by simp
      qed
    next
      case False
      show ?thesis
      proof (cases "notes_add env (f_noteData ?fr) (clock s) (db_notes s)")
        case None
        with db False k show ?thesis by simp
      next
        case (Some a)
        obtain r d where a: "a = (r, d)" by (cases a)
        from keep t k Some a have "\<exists>n'. d k = Some n' \<and> title n' = title n"
          unfolding keeps_absent_title_def by blast
        with db False Some a show ?thesis by simp
      qed
    qed
  qed
qed

theorem falsy_title_never_overwrites_witness:
  "\<not> truthy (p_title pay_empty) \<and> keeps_absent_title sample_env \<and>
   db_notes (editing_a\<lparr>clock := 2000\<rparr>) ''a'' = Some note_a \<and>
   nd_title (f_noteData (frame_of sample_env pay_empty (editing_a\<lparr>clock := 2000\<rparr>))) = None \<and>
   (\<exists>n'. db_notes (snd (saveNote sample_env pay_empty (editing_a\<lparr>clock := 2000\<rparr>))) ''a'' = Some n' \<and>
         title n' = title note_a)"
proof -
  have h: "\<not> truthy (p_title pay_empty)" "db_notes (editing_a\<lparr>clock := 2000\<rparr>) ''a'' = Some note_a"
    by (simp_all add: run_defs)
  from falsy_title_never_overwrites[OF h(1), where env = sample_env
      and s = "editing_a\<lparr>clock := 2000\<rparr>" and k = "''a''" and n = note_a
      and fr = "frame_of sample_env pay_empty (editing_a\<lparr>clock := 2000\<rparr>)"
      and ?s1.0 = "issued sample_env pay_empty (editing_a\<lparr>clock := 2000\<rparr>)"]
    begin_pay_empty sample_env_keeps_absent_title h
  show ?thesis by blast
qed

end
